theory Spec2Isabelle
  imports Main
begin

section \<open>The census page codec\<close>

text \<open>
  The decoder (\<open>ParseHTML\<close>, package \<open>parser\<close>) reads a document tree produced by
  \<open>golang.org/x/net/html\<close> and fills three fixed-size aggregates; the encoder
  (\<open>WriteHTML\<close>, package \<open>template\<close>) renders them through a fixed page template.
  Go strings are byte strings: \<^typ>\<open>string\<close> is a list of 8-bit characters.
\<close>

subsection \<open>Constants and the data model\<close>

definition RowCount :: nat where "RowCount = 25"
definition FieldCount :: nat where "FieldCount = 12"
definition HeadCount :: nat where "HeadCount = 7"
definition FootCount :: nat where "FootCount = 4"

record Row =
  Col :: "string list"

text \<open>The zero values of \<open>[HeadCount]string\<close>, \<open>[RowCount]Row\<close> and \<open>[FootCount]string\<close>.\<close>

definition zeroHead :: "string list" where
  "zeroHead = replicate HeadCount []"

definition zeroRow :: Row where
  "zeroRow = \<lparr>Col = replicate FieldCount []\<rparr>"

definition zeroRows :: "Row list" where
  "zeroRows = replicate RowCount zeroRow"

definition zeroFoot :: "string list" where
  "zeroFoot = replicate FootCount []"

subsection \<open>The document tree of \<open>html.Node\<close>\<close>

text \<open>
  An \<open>html.Node\<close> carries its type, its data (the tag name of an element, the content
  of a text node), its attributes and its children in sibling order. The
  \<open>FirstChild\<close>/\<open>NextSibling\<close> chain is the list of children; the \<open>Parent\<close> chain of
  a node is the list of its ancestors, nearest first, which the traversals carry along.
\<close>

datatype NodeType = ErrorNode | TextNode | DocumentNode | ElementNode | CommentNode | DoctypeNode

record Attribute =
  Key :: string
  Val :: string

datatype Node = Node (Type: NodeType) (Data: string) (Attr: "Attribute list") (Children: "Node list")

subsection \<open>\<open>strings.TrimSpace\<close>\<close>

text \<open>
  \<open>strings.TrimSpace\<close> removes leading and trailing runes for which
  \<open>unicode.IsSpace\<close> holds. A string starts (ends) with such a rune exactly when it
  starts (ends) with the UTF-8 encoding of one of them, listed here: the six ASCII
  spaces, U+0085, U+00A0, U+1680, U+2000 to U+200A, U+2028, U+2029, U+202F, U+205F
  and U+3000.
\<close>

definition spaceRunes :: "string list" where
  "spaceRunes =
     [[CHR 0x09],
      [CHR 0x0A],
      [CHR 0x0B],
      [CHR 0x0C],
      [CHR 0x0D],
      [CHR 0x20],
      [CHR 0xC2, CHR 0x85],
      [CHR 0xC2, CHR 0xA0],
      [CHR 0xE1, CHR 0x9A, CHR 0x80],
      [CHR 0xE2, CHR 0x80, CHR 0x80],
      [CHR 0xE2, CHR 0x80, CHR 0x81],
      [CHR 0xE2, CHR 0x80, CHR 0x82],
      [CHR 0xE2, CHR 0x80, CHR 0x83],
      [CHR 0xE2, CHR 0x80, CHR 0x84],
      [CHR 0xE2, CHR 0x80, CHR 0x85],
      [CHR 0xE2, CHR 0x80, CHR 0x86],
      [CHR 0xE2, CHR 0x80, CHR 0x87],
      [CHR 0xE2, CHR 0x80, CHR 0x88],
      [CHR 0xE2, CHR 0x80, CHR 0x89],
      [CHR 0xE2, CHR 0x80, CHR 0x8A],
      [CHR 0xE2, CHR 0x80, CHR 0xA8],
      [CHR 0xE2, CHR 0x80, CHR 0xA9],
      [CHR 0xE2, CHR 0x80, CHR 0xAF],
      [CHR 0xE2, CHR 0x81, CHR 0x9F],
      [CHR 0xE3, CHR 0x80, CHR 0x80]]"

text \<open>The width in bytes of the rune of \<open>encs\<close> that \<open>s\<close> starts with, 0 if there is none.\<close>

fun runeWidth :: "string list \<Rightarrow> string \<Rightarrow> nat" where
  "runeWidth [] s = 0"
| "runeWidth (e # encs) s =
     (if e \<noteq> [] \<and> take (length e) s = e then length e else runeWidth encs s)"

function trimBy :: "string list \<Rightarrow> string \<Rightarrow> string" where
  "trimBy encs s = (if runeWidth encs s = 0 then s else trimBy encs (drop (runeWidth encs s) s))"
  by pat_completeness auto

termination trimBy
proof (relation "measure (\<lambda>(encs, s). length s)")
  show "wf (measure (\<lambda>(encs, s). length s))" by simp
next
  fix encs :: "string list" and s :: string
  assume nz: "runeWidth encs s \<noteq> 0"
  have pos: "0 < runeWidth es t \<Longrightarrow> t \<noteq> []" for es t
    by (induction es) (auto split: if_splits)
  from nz have "s \<noteq> []" using pos [of encs s] by simp
  with nz show "((encs, drop (runeWidth encs s) s), (encs, s)) \<in> measure (\<lambda>(encs, s). length s)"
    by simp
qed

declare trimBy.simps [simp del]

definition TrimLeft :: "string \<Rightarrow> string" where
  "TrimLeft s = trimBy spaceRunes s"

definition TrimRight :: "string \<Rightarrow> string" where
  "TrimRight s = rev (trimBy (map rev spaceRunes) (rev s))"

definition TrimSpace :: "string \<Rightarrow> string" where
  "TrimSpace s = TrimRight (TrimLeft s)"

subsection \<open>The decoder's helpers\<close>

text \<open>
  The closures \<open>text\<close> and \<open>is\<close> of \<open>ParseHTML\<close> (both names are reserved words here,
  hence \<open>textOf\<close> and \<open>isElem\<close>). \<open>walk\<close> appends the data of every text node of a
  subtree in document order; \<open>textOf\<close> takes a possibly nil node.
\<close>

fun walk :: "Node \<Rightarrow> string" where
  "walk (Node t d a cs) = (if t = TextNode then d else []) @ concat (map walk cs)"

fun textOf :: "Node option \<Rightarrow> string" where
  "textOf None = []"
| "textOf (Some n) = TrimSpace (walk n)"

definition isElem :: "Node \<Rightarrow> string \<Rightarrow> bool" where
  "isElem n tag = (Type n = ElementNode \<and> Data n = tag)"

text \<open>\<open>ancestorTag\<close> walks the parent chain, here the list of ancestors, nearest first.\<close>

fun ancestorTag :: "Node list \<Rightarrow> string \<Rightarrow> bool" where
  "ancestorTag [] tag = False"
| "ancestorTag (p # ps) tag =
     (if Type p = ElementNode \<and> Data p = tag then True else ancestorTag ps tag)"

subsection \<open>Header extraction\<close>

fun collectTh :: "Node \<Rightarrow> Node list" where
  "collectTh (Node t d a cs) =
     (if isElem (Node t d a cs) ''th'' then [Node t d a cs] else [])
     @ concat (map collectTh cs)"

text \<open>
  The inner loop over the children of one \<open>th\<close>: at the first \<open>br\<close> it yields the value
  to store, the trimmed text of \<open>c.NextSibling\<close> (nil when the \<open>br\<close> is the last
  child), and breaks; \<open>None\<close> when the loop ends without finding a \<open>br\<close>.
\<close>

fun brValue :: "Node list \<Rightarrow> string option" where
  "brValue [] = None"
| "brValue (c # cs) =
     (if isElem c ''br''
      then Some (TrimSpace (textOf (case cs of [] \<Rightarrow> None | sib # _ \<Rightarrow> Some sib)))
      else brValue cs)"

text \<open>The outer loop over \<open>ths\<close>, with the array \<open>head\<close> and the counter \<open>idx\<close> as state.\<close>

fun headLoop :: "Node list \<Rightarrow> string list \<Rightarrow> nat \<Rightarrow> string list" where
  "headLoop [] head idx = head"
| "headLoop (th # ths) head idx =
     (if idx \<ge> HeadCount then head
      else case brValue (Children th) of
             Some v \<Rightarrow> headLoop ths (head[idx := v]) (idx + 1)
           | None \<Rightarrow> headLoop ths head idx)"

subsection \<open>Row extraction\<close>

fun collectTr :: "Node list \<Rightarrow> Node \<Rightarrow> Node list" where
  "collectTr anc (Node t d a cs) =
     (if isElem (Node t d a cs) ''tr'' \<and> ancestorTag anc ''tbody'' then [Node t d a cs] else [])
     @ concat (map (collectTr (Node t d a cs # anc)) cs)"

text \<open>The inner loop over the siblings starting at \<open>td\<close>, writing \<open>rows[ri].Col\<close>.\<close>

fun cellLoop :: "Node list \<Rightarrow> nat \<Rightarrow> string list \<Rightarrow> string list" where
  "cellLoop [] ci col = col"
| "cellLoop (td # sibs) ci col =
     (if ci < FieldCount
      then (if isElem td ''td''
            then cellLoop sibs (ci + 1) (col[ci := textOf (Some td)])
            else cellLoop sibs ci col)
      else col)"

function rowLoop :: "Node list \<Rightarrow> nat \<Rightarrow> Row list \<Rightarrow> Row list" where
  "rowLoop trs ri rows =
     (if ri < length trs \<and> ri < RowCount
      then rowLoop trs (ri + 1)
             (rows[ri := (rows ! ri)\<lparr>Col := cellLoop (Children (trs ! ri)) 0 (Col (rows ! ri))\<rparr>])
      else rows)"
  by pat_completeness auto
termination
  by (relation "measure (\<lambda>(trs, ri, rows). RowCount - ri)") auto

declare rowLoop.simps [simp del]

subsection \<open>Footer extraction\<close>

fun hasKey :: "Attribute list \<Rightarrow> string \<Rightarrow> bool" where
  "hasKey [] k = False"
| "hasKey (a # as) k = (if Key a = k then True else hasKey as k)"

text \<open>
  \<open>walkFooter\<close> returns the strings it appends to \<open>footvals\<close>, in the order of the
  appends. On a \<open>td\<close> under a \<open>tfoot\<close> that carries \<open>colspan\<close> it returns at once,
  without visiting the children.
\<close>

fun walkFooter :: "Node list \<Rightarrow> Node \<Rightarrow> string list" where
  "walkFooter anc (Node t d a cs) =
     (if isElem (Node t d a cs) ''td'' \<and> ancestorTag anc ''tfoot''
      then (if hasKey a ''colspan'' then []
            else textOf (Some (Node t d a cs))
                 # concat (map (walkFooter (Node t d a cs # anc)) cs))
      else concat (map (walkFooter (Node t d a cs # anc)) cs))"

fun footLoop :: "string list \<Rightarrow> nat \<Rightarrow> string list \<Rightarrow> string list" where
  "footLoop [] i foot = foot"
| "footLoop (v # vs) i foot = (if i < FootCount then footLoop vs (i + 1) (foot[i := v]) else foot)"

subsection \<open>The extraction from a parsed document\<close>

text \<open>The part of \<open>ParseHTML\<close> after \<open>html.Parse\<close> has returned the document \<open>doc\<close>.\<close>

definition extractHead :: "Node \<Rightarrow> string list" where
  "extractHead doc = headLoop (collectTh doc) zeroHead 0"

definition extractRows :: "Node \<Rightarrow> Row list" where
  "extractRows doc = rowLoop (collectTr [] doc) 0 zeroRows"

definition extractFoot :: "Node \<Rightarrow> string list" where
  "extractFoot doc = footLoop (walkFooter [] doc) 0 zeroFoot"

section \<open>The encoder\<close>

subsection \<open>Library functions used by the encoder\<close>

text \<open>
  \<open>html.EscapeString\<close> of the standard library replaces the five bytes
  \<open>&\<close>, \<open>'\<close>, \<open><\<close>, \<open>>\<close> and \<open>"\<close> and copies every other byte.
\<close>

definition escapeByte :: "char \<Rightarrow> string" where
  \<open>escapeByte c =
     (if c = CHR ''&'' then ''&amp;''
      else if c = CHR 0x27 then ''&#39;''
      else if c = CHR ''<'' then ''&lt;''
      else if c = CHR ''>'' then ''&gt;''
      else if c = CHR 0x22 then ''&#34;''
      else [c])\<close>

definition EscapeString :: "string \<Rightarrow> string" where
  "EscapeString s = concat (map escapeByte s)"

text \<open>
  The escaper that \<open>html/template\<close> applies to a string printed in element content
  (\<open>{{index .Footer 0}}\<close>): its replacement table also covers NUL, written as
  U+FFFD, and \<open>+\<close>. A value of type \<open>template.HTML\<close> is written as it is.
\<close>

definition htmlEscapeByte :: "char \<Rightarrow> string" where
  \<open>htmlEscapeByte c =
     (if c = CHR 0x00 then [CHR 0xEF, CHR 0xBF, CHR 0xBD]
      else if c = CHR 0x22 then ''&#34;''
      else if c = CHR ''&'' then ''&amp;''
      else if c = CHR 0x27 then ''&#39;''
      else if c = CHR ''+'' then ''&#43;''
      else if c = CHR ''<'' then ''&lt;''
      else if c = CHR ''>'' then ''&gt;''
      else [c])\<close>

definition htmlEscaper :: "string \<Rightarrow> string" where
  "htmlEscaper s = concat (map htmlEscapeByte s)"

text \<open>The verb \<open>%d\<close> of \<open>fmt.Sprintf\<close> on an \<open>int\<close>: decimal digits, with a sign when negative.\<close>

fun digits :: "nat \<Rightarrow> string" where
  "digits n = (if n < 10 then [char_of (48 + n)] else digits (n div 10) @ [char_of (48 + n mod 10)])"

declare digits.simps [simp del]

definition itoa :: "int \<Rightarrow> string" where
  "itoa i = (if i < 0 then CHR ''-'' # digits (nat (- i)) else digits (nat i))"

subsection \<open>Cell and header formatting (package \<open>template\<close>)\<close>

text \<open>
  \<open>row\<close> and \<open>col\<close> are the indices of the template's \<open>range\<close> loops, so \<open>row + 1\<close>
  and \<open>col + 1\<close> stay far below the range of \<open>int\<close>.
\<close>

definition wrapCell :: "string \<Rightarrow> int \<Rightarrow> int \<Rightarrow> string" where
  \<open>wrapCell v row col =
     (if v = [] then []
      else let esc = EscapeString v; r = row + 1; c = col + 1
           in if col = 4
              then ''<PersonRef detlnk="dpR'' @ itoa r @ ''C'' @ itoa c @ ''">'' @ esc @ ''</PersonRef>''
              else if col = 1 \<or> col = 10
              then ''<PlaceRef detlnk="dwR'' @ itoa r @ ''C'' @ itoa c @ ''">'' @ esc @ ''</PlaceRef>''
              else ''<Mark ref="R'' @ itoa r @ ''C'' @ itoa c @ ''">'' @ esc @ ''</Mark>'')\<close>

definition headerVal :: "string \<Rightarrow> string" where
  \<open>headerVal v = (if v = [] then [] else ''<br>'' @ EscapeString v)\<close>

subsection \<open>The page template (package \<open>template\<close>)\<close>

text \<open>
  \<open>pageTmpl\<close> executed on \<open>pageData{Header, Rows, Footer}\<close>: the text of the template
  with every action replaced by its output. \<open>html/template\<close> drops the HTML comments
  of a template's text, so the two comments of the source (\<open>HEADER\<close> and \<open>FOOTER\<close>)
  leave only the line ends around them. \<open>index\<close> on the arrays \<open>Header\<close> and
  \<open>Footer\<close> is in range by their type.
\<close>

definition pageTmpl :: "string list \<Rightarrow> Row list \<Rightarrow> string list \<Rightarrow> string" where
  \<open>pageTmpl Header Rows Footer =
    ''<!DOCTYPE html>\<newline>'' @
    ''<html lang="en">\<newline>'' @
    ''<head><meta charset="UTF-8"><title>1861 Census</title>\<newline>'' @
    ''<style>\<newline>'' @
    ''  .smaller-header { font-size: 8px; }\<newline>'' @
    ''  .small-header   { font-size: 10px; }\<newline>'' @
    ''  table, th, td   { border: 1px solid black; border-collapse: collapse; }\<newline>'' @
    ''  th, td          { padding: 4px; font-size: 12px; }\<newline>'' @
    ''  thead th        { background-color: #f0f0f0; }\<newline>'' @
    ''</style>\<newline>'' @
    ''</head>\<newline>'' @
    ''<body>\<newline>'' @
    ''\<newline>'' @
    ''<table border="1" cellspacing="0" cellpadding="0">\<newline>'' @
    ''  <colgroup><col style="width:8.33%" span="7"></colgroup>\<newline>'' @
    ''  <thead>\<newline>'' @
    ''    <tr><th colspan="7" align="center">\<newline>'' @
    ''      The undermentioned Houses are situate within the Boundaries of the\<newline>'' @
    ''    </th></tr>\<newline>'' @
    ''    <tr>\<newline>'' @
    ''      <th style="line-height:5em; padding-bottom:2em;">Parish [or Township] of'' @
    headerVal (Header ! 0) @
    ''</th>\<newline>'' @
    ''      <th style="line-height:5em; padding-bottom:2em;">City or Municipal Borough of'' @
    headerVal (Header ! 1) @
    ''</th>\<newline>'' @
    ''      <th style="line-height:5em; padding-bottom:2em;">Municipal Ward of'' @
    headerVal (Header ! 2) @
    ''</th>\<newline>'' @
    ''      <th style="line-height:5em; padding-bottom:2em;">Parliamentary Borough of'' @
    headerVal (Header ! 3) @
    ''</th>\<newline>'' @
    ''      <th style="line-height:5em; padding-bottom:2em;">Town of'' @
    headerVal (Header ! 4) @
    ''</th>\<newline>'' @
    ''      <th style="line-height:5em; padding-bottom:2em;">Village or Hamlet of'' @
    headerVal (Header ! 5) @
    ''</th>\<newline>'' @
    ''      <th style="line-height:5em; padding-bottom:2em;">Ecclesiastical District of'' @
    headerVal (Header ! 6) @
    ''</th>\<newline>'' @
    ''    </tr>\<newline>'' @
    ''    <tr>\<newline>'' @
    ''      <th class="small-header">Sched. No.</th>\<newline>'' @
    ''      <th class="small-header">Road, Street, &amp; No. or Name of House</th>\<newline>'' @
    ''      <th class="small-header">Houses</th>\<newline>'' @
    ''      <th class="smaller-header">Name &amp; Surname of each Person</th>\<newline>'' @
    ''      <th class="smaller-header">Relation to Head of Family</th>\<newline>'' @
    ''      <th class="smaller-header">Condition</th>\<newline>'' @
    ''      <th class="smaller-header">Age of</th>\<newline>'' @
    ''      <th class="small-header">Age of</th>\<newline>'' @
    ''      <th class="small-header">Rank, Profession, or Occupation</th>\<newline>'' @
    ''      <th class="small-header">Where Born</th>\<newline>'' @
    ''      <th class="small-header">Whether Blind or Deaf-and-Dumb</th>\<newline>'' @
    ''      <th class="small-header"></th>\<newline>'' @
    ''    </tr>\<newline>'' @
    ''  </thead>\<newline>'' @
    ''  <tbody>\<newline>'' @
    ''    '' @
    concat (map (\<lambda>(ri, row). ''\<newline>    <tr>'' @
         concat (map (\<lambda>(ci, val). ''<td>'' @ wrapCell val (int ri) (int ci) @ ''</td>'')
                  (enumerate 0 (Col row))) @
         ''</tr>\<newline>    '') (enumerate 0 Rows)) @
    ''\<newline>'' @
    ''  </tbody>\<newline>'' @
    ''  \<newline>'' @
    ''  <tfoot>\<newline>'' @
    ''    <tr>\<newline>'' @
    ''      <td colspan="2" align="right">Total of Houses...</td>\<newline>'' @
    ''      <td>'' @
    htmlEscaper (Footer ! 0) @
    ''</td>\<newline>'' @
    ''      <td>'' @
    htmlEscaper (Footer ! 1) @
    ''</td>\<newline>'' @
    ''      <td colspan="3" align="right">Total of Males and Females...</td>\<newline>'' @
    ''      <td>'' @
    htmlEscaper (Footer ! 2) @
    ''</td>\<newline>'' @
    ''      <td>'' @
    htmlEscaper (Footer ! 3) @
    ''</td>\<newline>'' @
    ''      <td colspan="2"></td><td></td>\<newline>'' @
    ''    </tr>\<newline>'' @
    ''  </tfoot>\<newline>'' @
    ''</table>\<newline>'' @
    ''</body>\<newline>'' @
    ''</html>''\<close>

subsection \<open>The same functions in the single-file program (package \<open>main\<close>)\<close>

definition wrapCell_main :: "string \<Rightarrow> int \<Rightarrow> int \<Rightarrow> string" where
  \<open>wrapCell_main v row col =
     (if v = [] then []
      else let esc = EscapeString v; r = row + 1; c = col + 1
           in if col = 4
              then ''<PersonRef detlnk="dpR'' @ itoa r @ ''C'' @ itoa c @ ''">'' @ esc @ ''</PersonRef>''
              else if col = 1 \<or> col = 10
              then ''<PlaceRef detlnk="dwR'' @ itoa r @ ''C'' @ itoa c @ ''">'' @ esc @ ''</PlaceRef>''
              else ''<Mark ref="R'' @ itoa r @ ''C'' @ itoa c @ ''">'' @ esc @ ''</Mark>'')\<close>

definition headerVal_main :: "string \<Rightarrow> string" where
  \<open>headerVal_main v = (if v = [] then [] else ''<br>'' @ EscapeString v)\<close>

definition pageTmpl_main :: "string list \<Rightarrow> Row list \<Rightarrow> string list \<Rightarrow> string" where
  \<open>pageTmpl_main Header Rows Footer =
    ''<!DOCTYPE html>\<newline>'' @
    ''<html lang="en">\<newline>'' @
    ''<head><meta charset="UTF-8"><title>1861 Census</title>\<newline>'' @
    ''<style>\<newline>'' @
    ''  .smaller-header { font-size: 8px; }\<newline>'' @
    ''  .small-header   { font-size: 10px; }\<newline>'' @
    ''  table, th, td   { border: 1px solid black; border-collapse: collapse; }\<newline>'' @
    ''  th, td          { padding: 4px; font-size: 12px; }\<newline>'' @
    ''  thead th        { background-color: #f0f0f0; }\<newline>'' @
    ''</style>\<newline>'' @
    ''</head>\<newline>'' @
    ''<body>\<newline>'' @
    ''\<newline>'' @
    ''<table border="1" cellspacing="0" cellpadding="0">\<newline>'' @
    ''  <colgroup><col style="width:8.33%" span="7"></colgroup>\<newline>'' @
    ''  <thead>\<newline>'' @
    ''    <tr><th colspan="7" align="center">\<newline>'' @
    ''      The undermentioned Houses are situate within the Boundaries of the\<newline>'' @
    ''    </th></tr>\<newline>'' @
    ''    <tr>\<newline>'' @
    ''      <th style="line-height:5em; padding-bottom:2em;">Parish [or Township] of'' @
    headerVal_main (Header ! 0) @
    ''</th>\<newline>'' @
    ''      <th style="line-height:5em; padding-bottom:2em;">City or Municipal Borough of'' @
    headerVal_main (Header ! 1) @
    ''</th>\<newline>'' @
    ''      <th style="line-height:5em; padding-bottom:2em;">Municipal Ward of'' @
    headerVal_main (Header ! 2) @
    ''</th>\<newline>'' @
    ''      <th style="line-height:5em; padding-bottom:2em;">Parliamentary Borough of'' @
    headerVal_main (Header ! 3) @
    ''</th>\<newline>'' @
    ''      <th style="line-height:5em; padding-bottom:2em;">Town of'' @
    headerVal_main (Header ! 4) @
    ''</th>\<newline>'' @
    ''      <th style="line-height:5em; padding-bottom:2em;">Hamlet or Tything, &amp;c., of'' @
    headerVal_main (Header ! 5) @
    ''</th>\<newline>'' @
    ''      <th style="line-height:5em; padding-bottom:2em;">Ecclesiastical District of'' @
    headerVal_main (Header ! 6) @
    ''</th>\<newline>'' @
    ''    </tr>\<newline>'' @
    ''  </thead>\<newline>'' @
    ''</table>\<newline>'' @
    ''\<newline>'' @
    ''\<newline>'' @
    ''<table>\<newline>'' @
    ''  <colgroup>\<newline>'' @
    ''    <col style="width:1%"><col style="width:8%"><col style="width:.5%"><col style="width:.5%">\<newline>'' @
    ''    <col style="width:15%"><col style="width:8%"><col style="width:2%">\<newline>'' @
    ''    <col style="width:1.5%"><col style="width:1.5%"><col style="width:20%">\<newline>'' @
    ''    <col style="width:15%"><col style="width:4%">\<newline>'' @
    ''  </colgroup>\<newline>'' @
    ''  <thead>\<newline>'' @
    ''    <tr>\<newline>'' @
    ''      <th class="smaller-header" rowspan="2">No.<br>Schedule</th>\<newline>'' @
    ''      <th class="small-header"   rowspan="2">Road, Street, &amp;c;<br>&amp; No. or Name of House</th>\<newline>'' @
    ''      <th class="smaller-header" colspan="2">HOUSES</th>\<newline>'' @
    ''      <th class="small-header"   rowspan="2">Name and Surname of each Person</th>\<newline>'' @
    ''      <th rowspan="2">Relation</th><th rowspan="2">Condition</th>\<newline>'' @
    ''      <th colspan="2">Age of</th>\<newline>'' @
    ''      <th rowspan="2">Rank, Profession, or Occupation</th>\<newline>'' @
    ''      <th rowspan="2">Where Born</th>\<newline>'' @
    ''      <th class="smaller-header" rowspan="2">Blind or Deaf-Dumb</th>\<newline>'' @
    ''    </tr>\<newline>'' @
    ''    <tr>\<newline>'' @
    ''      <th class="smaller-header">In-habited</th><th class="smaller-header">Un-inhabited or Bldg.</th>\<newline>'' @
    ''      <th class="smaller-header">Males</th><th class="smaller-header">Females</th>\<newline>'' @
    ''    </tr>\<newline>'' @
    ''  </thead>\<newline>'' @
    ''  <tbody>\<newline>'' @
    ''    '' @
    concat (map (\<lambda>(ri, row). ''\<newline>    <tr>'' @
         concat (map (\<lambda>(ci, val). ''<td>'' @ wrapCell_main val (int ri) (int ci) @ ''</td>'')
                  (enumerate 0 (Col row))) @
         ''</tr>\<newline>    '') (enumerate 0 Rows)) @
    ''\<newline>'' @
    ''  </tbody>\<newline>'' @
    ''  \<newline>'' @
    ''  <tfoot>\<newline>'' @
    ''    <tr>\<newline>'' @
    ''      <td colspan="2" align="right">Total of Houses...</td>\<newline>'' @
    ''      <td>'' @
    htmlEscaper (Footer ! 0) @
    ''</td>\<newline>'' @
    ''      <td>'' @
    htmlEscaper (Footer ! 1) @
    ''</td>\<newline>'' @
    ''      <td colspan="3" align="right">Total of Males and Females...</td>\<newline>'' @
    ''      <td>'' @
    htmlEscaper (Footer ! 2) @
    ''</td>\<newline>'' @
    ''      <td>'' @
    htmlEscaper (Footer ! 3) @
    ''</td>\<newline>'' @
    ''      <td colspan="2"></td><td></td>\<newline>'' @
    ''    </tr>\<newline>'' @
    ''  </tfoot>\<newline>'' @
    ''</table>\<newline>'' @
    ''</body>\<newline>'' @
    ''</html>''\<close>

section \<open>The HTML parser\<close>

text \<open>
  \<open>html.Parse\<close> belongs to \<open>golang.org/x/net/html\<close>, not to this program. It is
  modelled here for the documents this program writes: markup that is explicit and
  properly nested (no implied or misnested tags), attribute values in quotes, and the
  character references \<open>&amp;\<close>, \<open>&lt;\<close>, \<open>&gt;\<close>, \<open>&quot;\<close>, \<open>&apos;\<close> and decimal
  references to ASCII characters. The tokenizer lower-cases tag and attribute names,
  turns every CR and CR LF of a text into LF, reads the content of \<open>title\<close>,
  \<open>textarea\<close>, \<open>style\<close> and \<open>script\<close> up to their end tag, and the tree builder
  drops NUL from text and joins adjacent text nodes, as the library does. The error
  recovery of HTML5 (implied \<open>html\<close>, \<open>head\<close>, \<open>body\<close> and \<open>tbody\<close>, foster parenting,
  the adoption agency) is not modelled; the properties of the decoder on arbitrary
  documents are therefore stated on arbitrary trees, not on the output of this model.
\<close>

subsection \<open>Character references\<close>

definition isDigit :: "char \<Rightarrow> bool" where
  "isDigit c = (48 \<le> (of_char c :: nat) \<and> (of_char c :: nat) \<le> 57)"

fun decimal :: "nat \<Rightarrow> string \<Rightarrow> nat" where
  "decimal acc [] = acc"
| "decimal acc (c # s) = decimal (10 * acc + ((of_char c :: nat) - 48)) s"

text \<open>
  \<open>entity s\<close> reads the reference that follows an ampersand: the bytes it stands for
  and the number of bytes of \<open>s\<close> it takes, or \<open>None\<close> when \<open>s\<close> starts no reference
  known to the model (the ampersand is then text).
\<close>

definition entity :: "string \<Rightarrow> (string \<times> nat) option" where
  \<open>entity s =
     (if take 4 s = ''amp;'' then Some (''&'', 4)
      else if take 3 s = ''lt;'' then Some (''<'', 3)
      else if take 3 s = ''gt;'' then Some (''>'', 3)
      else if take 5 s = ''quot;'' then Some ([CHR 0x22], 5)
      else if take 5 s = ''apos;'' then Some ([CHR 0x27], 5)
      else if take 1 s = ''#'' then
        (let ds = takeWhile isDigit (drop 1 s); n = decimal 0 ds
         in if ds \<noteq> [] \<and> take 1 (drop (1 + length ds) s) = '';'' \<and> 0 < n \<and> n < 128
            then Some ([char_of n], 2 + length ds) else None)
      else None)\<close>

fun unescape :: "string \<Rightarrow> string" where
  "unescape [] = []"
| "unescape (c # s) =
     (if c = CHR ''&'' then
        (case entity s of
           Some (r, n) \<Rightarrow> r @ unescape (drop n s)
         | None \<Rightarrow> c # unescape s)
      else c # unescape s)"

fun convertNewlines :: "string \<Rightarrow> string" where
  "convertNewlines [] = []"
| "convertNewlines [c] = (if c = CHR 0x0D then [CHR 0x0A] else [c])"
| "convertNewlines (c # d # s) =
     (if c = CHR 0x0D then
        (if d = CHR 0x0A then CHR 0x0A # convertNewlines s else CHR 0x0A # convertNewlines (d # s))
      else c # convertNewlines (d # s))"

subsection \<open>The tokenizer\<close>

datatype Token =
    StartTagToken string "Attribute list"
  | EndTagToken string
  | TextToken string
  | CommentToken string
  | DoctypeToken string

definition lower :: "char \<Rightarrow> char" where
  "lower c = (if 65 \<le> (of_char c :: nat) \<and> (of_char c :: nat) \<le> 90
              then char_of ((of_char c :: nat) + 32) else c)"

definition isWS :: "char \<Rightarrow> bool" where
  "isWS c = (c = CHR '' '' \<or> c = CHR 0x09 \<or> c = CHR 0x0A \<or> c = CHR 0x0C \<or> c = CHR 0x0D)"

definition isSep :: "char \<Rightarrow> bool" where
  "isSep c = (isWS c \<or> c = CHR ''/'')"

text \<open>The attributes of a start tag, read by a scanner with six states.\<close>

datatype AttrState =
    BeforeName
  | InName string
  | AfterName string
  | BeforeVal string
  | InQuoted string char string
  | InUnquoted string string

definition mkAttr :: "string \<Rightarrow> string \<Rightarrow> Attribute" where
  "mkAttr k v = \<lparr>Key = map lower k, Val = unescape v\<rparr>"

fun scanAttrs :: "AttrState \<Rightarrow> string \<Rightarrow> Attribute list" where
  "scanAttrs BeforeName [] = []"
| "scanAttrs (InName k) [] = [mkAttr k []]"
| "scanAttrs (AfterName k) [] = [mkAttr k []]"
| "scanAttrs (BeforeVal k) [] = [mkAttr k []]"
| "scanAttrs (InQuoted k q v) [] = [mkAttr k v]"
| "scanAttrs (InUnquoted k v) [] = [mkAttr k v]"
| "scanAttrs BeforeName (c # s) =
     (if isSep c then scanAttrs BeforeName s else scanAttrs (InName [c]) s)"
| "scanAttrs (InName k) (c # s) =
     (if isSep c then scanAttrs (AfterName k) s
      else if c = CHR ''='' then scanAttrs (BeforeVal k) s
      else scanAttrs (InName (k @ [c])) s)"
| "scanAttrs (AfterName k) (c # s) =
     (if isSep c then scanAttrs (AfterName k) s
      else if c = CHR ''='' then scanAttrs (BeforeVal k) s
      else mkAttr k [] # scanAttrs (InName [c]) s)"
| "scanAttrs (BeforeVal k) (c # s) =
     (if isWS c then scanAttrs (BeforeVal k) s
      else if c = CHR 0x22 \<or> c = CHR 0x27 then scanAttrs (InQuoted k c []) s
      else scanAttrs (InUnquoted k [c]) s)"
| "scanAttrs (InQuoted k q v) (c # s) =
     (if c = q then mkAttr k v # scanAttrs BeforeName s
      else scanAttrs (InQuoted k q (v @ [c])) s)"
| "scanAttrs (InUnquoted k v) (c # s) =
     (if isWS c then mkAttr k v # scanAttrs BeforeName s
      else scanAttrs (InUnquoted k (v @ [c])) s)"

text \<open>
  \<open>tagLen q s\<close> is the number of bytes of \<open>s\<close> before the \<open>>\<close> that closes the tag,
  \<open>q\<close> being the quote that is open; \<open>cmtLen\<close> the number before the \<open>-->\<close> that
  closes a comment; \<open>rawLen name\<close> the number before the end tag of \<open>name\<close>.
\<close>

fun tagLen :: "char option \<Rightarrow> string \<Rightarrow> nat" where
  "tagLen q [] = 0"
| "tagLen None (c # s) =
     (if c = CHR ''>'' then 0
      else if c = CHR 0x22 \<or> c = CHR 0x27 then Suc (tagLen (Some c) s)
      else Suc (tagLen None s))"
| "tagLen (Some q) (c # s) =
     (if c = q then Suc (tagLen None s) else Suc (tagLen (Some q) s))"

fun cmtLen :: "string \<Rightarrow> nat" where
  "cmtLen [] = 0"
| "cmtLen (c # s) = (if take 3 (c # s) = ''-->'' then 0 else Suc (cmtLen s))"

fun rawLen :: "string \<Rightarrow> string \<Rightarrow> nat" where
  "rawLen name [] = 0"
| "rawLen name (c # s) =
     (if c = CHR ''<'' \<and> map lower (take (Suc (length name)) s) = CHR ''/'' # name then 0
      else Suc (rawLen name s))"

definition tagName :: "string \<Rightarrow> string" where
  "tagName body = map lower (takeWhile (\<lambda>c. \<not> isSep c) body)"

definition tagAttrs :: "string \<Rightarrow> Attribute list" where
  "tagAttrs body = scanAttrs BeforeName (dropWhile (\<lambda>c. \<not> isSep c) body)"

definition textData :: "string \<Rightarrow> string" where
  "textData raw = unescape (convertNewlines raw)"

definition rawTags :: "string list" where
  "rawTags = [''title'', ''textarea'', ''style'', ''script'']"

definition textTokens :: "string \<Rightarrow> Token list" where
  "textTokens d = (if d = [] then [] else [TextToken d])"

text \<open>
  \<open>tokenize\<close> splits a document into tokens. At a \<open><\<close> it reads a comment, a doctype,
  an end tag or a start tag (followed by the raw content of a \<open>title\<close>, \<open>textarea\<close>,
  \<open>style\<close> or \<open>script\<close>); anywhere else it reads text up to the next \<open><\<close>.
\<close>

function (sequential) tokenize :: "string \<Rightarrow> Token list" where
  "tokenize [] = []"
| "tokenize (c # s) =
     (if c \<noteq> CHR ''<'' then
        TextToken (textData (c # takeWhile (\<lambda>x. x \<noteq> CHR ''<'') s))
        # tokenize (dropWhile (\<lambda>x. x \<noteq> CHR ''<'') s)
      else if take 3 s = ''!--'' then
        CommentToken (take (cmtLen (drop 3 s)) (drop 3 s))
        # tokenize (drop (3 + cmtLen (drop 3 s) + 3) s)
      else if take 1 s = ''!'' then
        DoctypeToken (drop 1 (dropWhile (\<lambda>c. \<not> isWS c) (take (tagLen None s) s)))
        # tokenize (drop (Suc (tagLen None s)) s)
      else if take 1 s = ''/'' then
        EndTagToken (tagName (drop 1 (take (tagLen None s) s)))
        # tokenize (drop (Suc (tagLen None s)) s)
      else
        (let body = take (tagLen None s) s; rest = drop (Suc (tagLen None s)) s;
             name = tagName body
         in if name \<in> set rawTags then
              StartTagToken name (tagAttrs body)
              # textTokens ((if name = ''title'' \<or> name = ''textarea'' then textData else convertNewlines)
                             (take (rawLen name rest) rest))
              @ tokenize (drop (rawLen name rest) rest)
            else StartTagToken name (tagAttrs body) # tokenize rest))"
  by pat_completeness auto
termination
  by (relation "measure length") (auto simp: length_dropWhile_le less_Suc_eq_le)

declare tokenize.simps [simp del]

subsection \<open>The tree builder\<close>

text \<open>
  The builder keeps the stack of open elements, innermost first, above the document
  node; each entry holds the children it has received so far.
\<close>

definition voidTags :: "string list" where
  "voidTags = [''area'', ''base'', ''br'', ''col'', ''embed'', ''hr'', ''img'', ''input'',
               ''keygen'', ''link'', ''meta'', ''param'', ''source'', ''track'', ''wbr'']"

fun addChild :: "Node \<Rightarrow> Node \<Rightarrow> Node" where
  "addChild c (Node t d a cs) = Node t d a (cs @ [c])"

fun addText :: "string \<Rightarrow> Node \<Rightarrow> Node" where
  "addText txt (Node t d a cs) =
     (if cs \<noteq> [] \<and> Type (last cs) = TextNode
      then Node t d a (butlast cs @ [Node TextNode (Data (last cs) @ txt) [] []])
      else Node t d a (cs @ [Node TextNode txt [] []]))"

fun onTop :: "(Node \<Rightarrow> Node) \<Rightarrow> Node list \<Rightarrow> Node list" where
  "onTop f [] = []"
| "onTop f (n # st) = f n # st"

fun popTo :: "string \<Rightarrow> Node list \<Rightarrow> Node list" where
  "popTo name (n # p # st) =
     (if Data n = name then addChild n p # st else popTo name (addChild n p # st))"
| "popTo name st = st"

fun step :: "Node list \<Rightarrow> Token \<Rightarrow> Node list" where
  "step st (StartTagToken name attrs) =
     (if name \<in> set voidTags then onTop (addChild (Node ElementNode name attrs [])) st
      else Node ElementNode name attrs [] # st)"
| "step st (EndTagToken name) =
     (if name \<in> set (map Data (butlast st)) then popTo name st else st)"
| "step st (TextToken d) =
     (let txt = filter (\<lambda>c. c \<noteq> CHR 0x00) d
      in if txt = [] then st else onTop (addText txt) st)"
| "step st (CommentToken d) = onTop (addChild (Node CommentNode d [] [])) st"
| "step st (DoctypeToken d) = onTop (addChild (Node DoctypeNode d [] [])) st"

fun closeAll :: "Node list \<Rightarrow> Node" where
  "closeAll [] = Node DocumentNode [] [] []"
| "closeAll [n] = n"
| "closeAll (n # p # st) = closeAll (addChild n p # st)"

definition parseDocument :: "string \<Rightarrow> Node" where
  "parseDocument s = closeAll (foldl step [Node DocumentNode [] [] []] (tokenize s))"

section \<open>Files\<close>

text \<open>
  The world the two entry points run in: the files by path. A \<open>Directory\<close> can be
  opened but not read, and not written as a file. A path is the key as written: two
  spellings of one file are two keys, so a property that writes a file and reads it
  back takes a name that \<open>filepath.Clean\<close> leaves as it is.
\<close>

datatype error = ReadError | ParseError | RenderError | WriteError

datatype File = Regular string | Directory

record World =
  files :: "string \<Rightarrow> File option"

definition os_Open :: "World \<Rightarrow> string \<Rightarrow> error + File" where
  "os_Open w name = (case files w name of None \<Rightarrow> Inl ReadError | Some f \<Rightarrow> Inr f)"

definition os_WriteFile :: "World \<Rightarrow> string \<Rightarrow> string \<Rightarrow> error option \<times> World" where
  "os_WriteFile w name bytes =
     (if name = [] \<or> files w name = Some Directory then (Some WriteError, w)
      else (None, w\<lparr>files := (files w)(name \<mapsto> Regular bytes)\<rparr>))"

text \<open>\<open>html.Parse\<close> fails only when reading from its input fails.\<close>

definition html_Parse :: "File \<Rightarrow> error + Node" where
  "html_Parse f = (case f of Directory \<Rightarrow> Inl ParseError | Regular s \<Rightarrow> Inr (parseDocument s))"

text \<open>
  \<open>filepath.Clean\<close> for slash-separated paths: empty and \<open>.\<close> elements go, a \<open>..\<close>
  removes the element before it, at the root it goes too, and the empty path is \<open>.\<close>.
\<close>

fun splitSlash :: "string \<Rightarrow> string \<Rightarrow> string list" where
  "splitSlash cur [] = [cur]"
| "splitSlash cur (c # s) = (if c = CHR ''/'' then cur # splitSlash [] s else splitSlash (cur @ [c]) s)"

definition cleanStep :: "bool \<Rightarrow> string list \<Rightarrow> string \<Rightarrow> string list" where
  "cleanStep rooted out el =
     (if el = [] \<or> el = ''.'' then out
      else if el = ''..'' then
        (if out \<noteq> [] \<and> hd out \<noteq> ''..'' then tl out
         else if rooted then out
         else el # out)
      else el # out)"

fun joinSlash :: "string list \<Rightarrow> string" where
  "joinSlash [] = []"
| "joinSlash [e] = e"
| "joinSlash (e # es) = e @ CHR ''/'' # joinSlash es"

definition filepath_Clean :: "string \<Rightarrow> string" where
  "filepath_Clean path =
     (let rooted = (take 1 path = ''/'');
          body = joinSlash (rev (foldl (cleanStep rooted) [] (splitSlash [] path)))
      in if rooted then CHR ''/'' # body
         else if body = [] then ''.'' else body)"

section \<open>The two entry points\<close>

text \<open>
  \<open>ParseHTML\<close> returns its four results as a tuple, the error last (\<open>None\<close> for nil).
  On both error paths the three aggregates are still the zero values they were
  declared with.
\<close>

definition ParseHTML :: "World \<Rightarrow> string \<Rightarrow> string list \<times> Row list \<times> string list \<times> error option" where
  "ParseHTML w path =
     (case os_Open w (filepath_Clean path) of
        Inl err \<Rightarrow> (zeroHead, zeroRows, zeroFoot, Some err)
      | Inr file \<Rightarrow>
          (case html_Parse file of
             Inl err \<Rightarrow> (zeroHead, zeroRows, zeroFoot, Some err)
           | Inr doc \<Rightarrow> (extractHead doc, extractRows doc, extractFoot doc, None)))"

text \<open>
  \<open>WriteHTML\<close> executes the template into a buffer and writes the buffer. Executing
  this template cannot fail: its only indexing is into arrays, with constant indices.
\<close>

definition WriteHTML :: "World \<Rightarrow> string list \<Rightarrow> Row list \<Rightarrow> string list \<Rightarrow> string \<Rightarrow> error option \<times> World" where
  "WriteHTML w header rows footer filename = os_WriteFile w filename (pageTmpl header rows footer)"

definition writeHTML_main :: "World \<Rightarrow> string list \<Rightarrow> Row list \<Rightarrow> string list \<Rightarrow> string \<Rightarrow> error option \<times> World" where
  "writeHTML_main w header rows footer filename = os_WriteFile w filename (pageTmpl_main header rows footer)"

section \<open>The decoder of the single-file program (package \<open>main\<close>)\<close>

text \<open>
  \<open>parseHTML\<close> and \<open>ancestorTag\<close> of the single-file program, with their closures,
  translated on their own from that file.
\<close>

fun walk_main :: "Node \<Rightarrow> string" where
  "walk_main (Node t d a cs) = (if t = TextNode then d else []) @ concat (map walk_main cs)"

fun textOf_main :: "Node option \<Rightarrow> string" where
  "textOf_main None = []"
| "textOf_main (Some n) = TrimSpace (walk_main n)"

definition isElem_main :: "Node \<Rightarrow> string \<Rightarrow> bool" where
  "isElem_main n tag = (Type n = ElementNode \<and> Data n = tag)"

fun ancestorTag_main :: "Node list \<Rightarrow> string \<Rightarrow> bool" where
  "ancestorTag_main [] tag = False"
| "ancestorTag_main (p # ps) tag =
     (if Type p = ElementNode \<and> Data p = tag then True else ancestorTag_main ps tag)"

fun collectTh_main :: "Node \<Rightarrow> Node list" where
  "collectTh_main (Node t d a cs) =
     (if isElem_main (Node t d a cs) ''th'' then [Node t d a cs] else [])
     @ concat (map collectTh_main cs)"

fun brValue_main :: "Node list \<Rightarrow> string option" where
  "brValue_main [] = None"
| "brValue_main (c # cs) =
     (if isElem_main c ''br''
      then Some (TrimSpace (textOf_main (case cs of [] \<Rightarrow> None | sib # _ \<Rightarrow> Some sib)))
      else brValue_main cs)"

fun headLoop_main :: "Node list \<Rightarrow> string list \<Rightarrow> nat \<Rightarrow> string list" where
  "headLoop_main [] head idx = head"
| "headLoop_main (th # ths) head idx =
     (if idx \<ge> HeadCount then head
      else case brValue_main (Children th) of
             Some v \<Rightarrow> headLoop_main ths (head[idx := v]) (idx + 1)
           | None \<Rightarrow> headLoop_main ths head idx)"

fun collectTr_main :: "Node list \<Rightarrow> Node \<Rightarrow> Node list" where
  "collectTr_main anc (Node t d a cs) =
     (if isElem_main (Node t d a cs) ''tr'' \<and> ancestorTag_main anc ''tbody''
      then [Node t d a cs] else [])
     @ concat (map (collectTr_main (Node t d a cs # anc)) cs)"

fun cellLoop_main :: "Node list \<Rightarrow> nat \<Rightarrow> string list \<Rightarrow> string list" where
  "cellLoop_main [] ci col = col"
| "cellLoop_main (td # sibs) ci col =
     (if ci < FieldCount
      then (if isElem_main td ''td''
            then cellLoop_main sibs (ci + 1) (col[ci := textOf_main (Some td)])
            else cellLoop_main sibs ci col)
      else col)"

function rowLoop_main :: "Node list \<Rightarrow> nat \<Rightarrow> Row list \<Rightarrow> Row list" where
  "rowLoop_main trs ri rows =
     (if ri < length trs \<and> ri < RowCount
      then rowLoop_main trs (ri + 1)
             (rows[ri := (rows ! ri)\<lparr>Col := cellLoop_main (Children (trs ! ri)) 0 (Col (rows ! ri))\<rparr>])
      else rows)"
  by pat_completeness auto
termination
  by (relation "measure (\<lambda>(trs, ri, rows). RowCount - ri)") auto

declare rowLoop_main.simps [simp del]

fun walkFooter_main :: "Node list \<Rightarrow> Node \<Rightarrow> string list" where
  "walkFooter_main anc (Node t d a cs) =
     (if isElem_main (Node t d a cs) ''td'' \<and> ancestorTag_main anc ''tfoot''
      then (if hasKey a ''colspan'' then []
            else textOf_main (Some (Node t d a cs))
                 # concat (map (walkFooter_main (Node t d a cs # anc)) cs))
      else concat (map (walkFooter_main (Node t d a cs # anc)) cs))"

fun footLoop_main :: "string list \<Rightarrow> nat \<Rightarrow> string list \<Rightarrow> string list" where
  "footLoop_main [] i foot = foot"
| "footLoop_main (v # vs) i foot =
     (if i < FootCount then footLoop_main vs (i + 1) (foot[i := v]) else foot)"

definition parseHTML_main :: "World \<Rightarrow> string \<Rightarrow> string list \<times> Row list \<times> string list \<times> error option" where
  "parseHTML_main w path =
     (case os_Open w (filepath_Clean path) of
        Inl err \<Rightarrow> (zeroHead, zeroRows, zeroFoot, Some err)
      | Inr file \<Rightarrow>
          (case html_Parse file of
             Inl err \<Rightarrow> (zeroHead, zeroRows, zeroFoot, Some err)
           | Inr doc \<Rightarrow>
               (headLoop_main (collectTh_main doc) zeroHead 0,
                rowLoop_main (collectTr_main [] doc) 0 zeroRows,
                footLoop_main (walkFooter_main [] doc) 0 zeroFoot, None)))"

section \<open>The decoder as the specification words it\<close>

definition isBr :: "Node \<Rightarrow> bool" where
  "isBr c = isElem c ''br''"

fun brVals :: "Node list \<Rightarrow> string list" where
  "brVals [] = []"
| "brVals (th # ths) = (case brValue (Children th) of Some v \<Rightarrow> v # brVals ths | None \<Rightarrow> brVals ths)"

text \<open>
  The sentences of the specification about the decoder, as definitions of their own:
  which header cells count, which sibling carries the value, which rows and cells are
  taken, and how the fixed-size aggregates are filled and padded.
\<close>

definition pad :: "nat \<Rightarrow> string list \<Rightarrow> string list" where
  "pad n xs = take n xs @ replicate (n - length xs) []"

definition hasBr :: "Node \<Rightarrow> bool" where
  "hasBr th = (filter isBr (Children th) \<noteq> [])"

definition afterFirstBr :: "Node \<Rightarrow> Node option" where
  "afterFirstBr th =
     (case dropWhile (\<lambda>c. \<not> isBr c) (Children th) of
        b # sib # _ \<Rightarrow> Some sib
      | _ \<Rightarrow> None)"

definition headerSlots :: "Node \<Rightarrow> string list" where
  "headerSlots doc = pad HeadCount (map (\<lambda>th. textOf (afterFirstBr th)) (filter hasBr (collectTh doc)))"

definition isTd :: "Node \<Rightarrow> bool" where
  "isTd c = isElem c ''td''"

definition rowOf :: "Node \<Rightarrow> Row" where
  "rowOf tr = \<lparr>Col = pad FieldCount (map (\<lambda>td. textOf (Some td)) (filter isTd (Children tr)))\<rparr>"

definition rowSlots :: "Node \<Rightarrow> Row list" where
  "rowSlots doc =
     map rowOf (take RowCount (collectTr [] doc))
     @ replicate (RowCount - length (collectTr [] doc)) zeroRow"

text \<open>
  Every \<open>td\<close> element under a \<open>tfoot\<close>, in document order, each with its ancestors.
\<close>

fun tfootTds :: "Node list \<Rightarrow> Node \<Rightarrow> (Node \<times> Node list) list" where
  "tfootTds anc (Node t d a cs) =
     (if isElem (Node t d a cs) ''td'' \<and> ancestorTag anc ''tfoot'' then [(Node t d a cs, anc)] else [])
     @ concat (map (tfootTds (Node t d a cs # anc)) cs)"

definition hasColspan :: "Node \<Rightarrow> bool" where
  "hasColspan n = hasKey (Attr n) ''colspan''"

text \<open>The footer as the specification words it: the cells without \<open>colspan\<close>.\<close>

definition footerCells :: "Node \<Rightarrow> Node list" where
  "footerCells doc = map fst (filter (\<lambda>(n, anc). \<not> hasColspan n) (tfootTds [] doc))"

text \<open>
  \<open>inLabelCell anc\<close>: one of the ancestors is itself a \<open>td\<close> under a \<open>tfoot\<close> that
  carries \<open>colspan\<close>.
\<close>

fun inLabelCell :: "Node list \<Rightarrow> bool" where
  "inLabelCell [] = False"
| "inLabelCell (p # ps) =
     (if isElem p ''td'' \<and> ancestorTag ps ''tfoot'' \<and> hasColspan p then True else inLabelCell ps)"

definition valueCells :: "Node \<Rightarrow> Node list" where
  "valueCells doc =
     map fst (filter (\<lambda>(n, anc). \<not> hasColspan n \<and> \<not> inLabelCell anc) (tfootTds [] doc))"

definition footerSlots :: "Node \<Rightarrow> string list" where
  "footerSlots doc = pad FootCount (map (\<lambda>td. textOf (Some td)) (valueCells doc))"

text \<open>The footer slots filled from the cells without \<open>colspan\<close>, wherever they are.\<close>

definition footerAsWorded :: "Node \<Rightarrow> string list" where
  "footerAsWorded doc = pad FootCount (map (\<lambda>td. textOf (Some td)) (footerCells doc))"

text \<open>A field is trimmed when \<open>strings.TrimSpace\<close> leaves it as it is.\<close>

definition trimmed :: "string \<Rightarrow> bool" where
  "trimmed v = (TrimSpace v = v)"

subsection \<open>Sample documents\<close>

text \<open>A footer whose label cell holds a nested table.\<close>

definition nestedLabelDoc :: string where
  \<open>nestedLabelDoc =
     ''<table><tfoot><tr><td colspan="2"><table><tbody><tr><td>x</td></tr></tbody></table></td></tr></tfoot></table>''\<close>


text \<open>A parsed document with a body of 30 rows of 13 cells each and a footer of 5 plain cells.\<close>

definition thirtyRowsDoc :: Node where
  "thirtyRowsDoc =
     Node DocumentNode [] []
       [Node ElementNode ''table'' []
          [Node ElementNode ''tbody'' []
             (replicate 30 (Node ElementNode ''tr'' []
                (replicate 13 (Node ElementNode ''td'' [] [Node TextNode ''v'' [] []])))),
           Node ElementNode ''tfoot'' []
             [Node ElementNode ''tr'' []
                (map (\<lambda>v. Node ElementNode ''td'' [] [Node TextNode v [] []])
                   [''1'', ''2'', ''3'', ''4'', ''5''])]]]"


text \<open>A page with untrimmed fields, a missing path and a directory.\<close>

definition sampleWorld :: World where
  \<open>sampleWorld = \<lparr>files = (\<lambda>_. None)(
      ''dir'' \<mapsto> Directory,
      ''page.html'' \<mapsto> Regular
        ''<table><thead><tr><th>Parish of<br> Ham </th><th>Town of</th></tr></thead><tbody><tr><td> a </td><td><Mark ref="R1C2">b &amp; c</Mark></td></tr></tbody><tfoot><tr><td colspan="2">L</td><td>7 </td></tr></tfoot></table>'')\<rparr>\<close>

text \<open>The blank page: 7, 25 by 12 and 4 empty fields.\<close>

definition blankHeader :: "string list" where
  "blankHeader = replicate 7 []"

definition blankRows :: "Row list" where
  "blankRows = replicate 25 \<lparr>Col = replicate 12 []\<rparr>"

definition blankFooter :: "string list" where
  "blankFooter = replicate 4 []"

definition emptyWorld :: World where
  "emptyWorld = \<lparr>files = (\<lambda>_. None)\<rparr>"

section \<open>The markup the encoder writes\<close>

text \<open>
  To relate the bytes the encoder writes to the tree the parser returns for them, the
  written document is described as markup: text, elements with attributes and
  children, void elements, elements with raw content, and the doctype. \<open>print\<close> gives
  the bytes of a piece of markup, \<open>node\<close> the tree node it stands for, \<open>mtoks\<close> its
  tokens, and \<open>wf\<close> the conditions under which the three agree.
\<close>

datatype Markup =
    MText string
  | MElem string "(string \<times> string) list" "Markup list"
  | MVoid string "(string \<times> string) list"
  | MRaw string string
  | MDoctype string

definition printAttr :: "string \<times> string \<Rightarrow> string" where
  \<open>printAttr kv = CHR '' '' # fst kv @ ''="'' @ snd kv @ [CHR 0x22]\<close>

definition printAttrs :: "(string \<times> string) list \<Rightarrow> string" where
  "printAttrs as = concat (map printAttr as)"

fun print :: "Markup \<Rightarrow> string" where
  "print (MText s) = s"
| "print (MElem n as cs) =
     CHR ''<'' # n @ printAttrs as @ CHR ''>'' # concat (map print cs) @ ''</'' @ n @ ''>''"
| "print (MVoid n as) = CHR ''<'' # n @ printAttrs as @ ''>''"
| "print (MRaw n s) = CHR ''<'' # n @ CHR ''>'' # s @ ''</'' @ n @ ''>''"
| "print (MDoctype d) = ''<!DOCTYPE '' @ d @ ''>''"

definition prints :: "Markup list \<Rightarrow> string" where
  "prints ms = concat (map print ms)"

definition attrOf :: "string \<times> string \<Rightarrow> Attribute" where
  "attrOf kv = mkAttr (fst kv) (snd kv)"

definition rawData :: "string \<Rightarrow> string \<Rightarrow> string" where
  "rawData name s = (if name = ''title'' \<or> name = ''textarea'' then textData s else convertNewlines s)"

fun node :: "Markup \<Rightarrow> Node" where
  "node (MText s) = Node TextNode (textData s) [] []"
| "node (MElem n as cs) = Node ElementNode (map lower n) (map attrOf as) (map node cs)"
| "node (MVoid n as) = Node ElementNode (map lower n) (map attrOf as) []"
| "node (MRaw n s) =
     Node ElementNode (map lower n) []
       (if s = [] then [] else [Node TextNode (rawData (map lower n) s) [] []])"
| "node (MDoctype d) = Node DoctypeNode d [] []"

fun mtoks :: "Markup \<Rightarrow> Token list" where
  "mtoks (MText s) = [TextToken (textData s)]"
| "mtoks (MElem n as cs) =
     StartTagToken (map lower n) (map attrOf as) # concat (map mtoks cs) @ [EndTagToken (map lower n)]"
| "mtoks (MVoid n as) = [StartTagToken (map lower n) (map attrOf as)]"
| "mtoks (MRaw n s) =
     StartTagToken (map lower n) [] # textTokens (rawData (map lower n) s) @ [EndTagToken (map lower n)]"
| "mtoks (MDoctype d) = [DoctypeToken d]"

text \<open>The characters of tag and attribute names.\<close>

definition isNameChar :: "char \<Rightarrow> bool" where
  "isNameChar c = (c \<in> set ''abcdefghijklmnopqrstuvwxyzABCDEFGHIJKLMNOPQRSTUVWXYZ0123456789-'')"

definition nameOK :: "string \<Rightarrow> bool" where
  "nameOK n = (n \<noteq> [] \<and> list_all isNameChar n)"

definition attrOK :: "string \<times> string \<Rightarrow> bool" where
  "attrOK kv = (nameOK (fst kv) \<and> CHR 0x22 \<notin> set (snd kv))"

definition textOK :: "string \<Rightarrow> bool" where
  "textOK s = (s \<noteq> [] \<and> CHR ''<'' \<notin> set s \<and> textData s \<noteq> [] \<and> CHR 0x00 \<notin> set (textData s))"

fun isText :: "Markup \<Rightarrow> bool" where
  "isText (MText s) = True"
| "isText m = False"

fun noAdjText :: "Markup list \<Rightarrow> bool" where
  "noAdjText [] = True"
| "noAdjText [m] = True"
| "noAdjText (m # m' # ms) = (\<not> (isText m \<and> isText m') \<and> noAdjText (m' # ms))"

fun wf :: "Markup \<Rightarrow> bool" where
  "wf (MText s) = textOK s"
| "wf (MElem n as cs) =
     (nameOK n \<and> map lower n \<notin> set voidTags \<and> map lower n \<notin> set rawTags
      \<and> list_all attrOK as \<and> list_all wf cs \<and> noAdjText cs)"
| "wf (MVoid n as) = (nameOK n \<and> map lower n \<in> set voidTags \<and> list_all attrOK as)"
| "wf (MRaw n s) =
     (nameOK n \<and> map lower n \<in> set rawTags \<and> CHR ''<'' \<notin> set s
      \<and> CHR 0x00 \<notin> set (rawData (map lower n) s) \<and> (s = [] \<or> rawData (map lower n) s \<noteq> []))"
| "wf (MDoctype d) =
     (CHR ''>'' \<notin> set d \<and> CHR 0x22 \<notin> set d \<and> CHR 0x27 \<notin> set d \<and> list_all (\<lambda>c. \<not> isWS c) d)"

definition wfs :: "Markup list \<Rightarrow> bool" where
  "wfs ms = (list_all wf ms \<and> noAdjText ms)"

subsection \<open>The markup of the page\<close>

text \<open>
  The output of the three kinds of action of the page template, as markup: a header
  value, a footer value and a body cell. A field is \<open>clean\<close> when it holds neither CR
  (which the tokenizer turns into LF) nor NUL (which the tree builder drops and the
  template's escaper replaces).
\<close>

definition clean :: "string \<Rightarrow> bool" where
  "clean v = (CHR 0x0D \<notin> set v \<and> CHR 0x00 \<notin> set v)"

definition headerMarkup :: "string \<Rightarrow> Markup list" where
  "headerMarkup v = (if v = [] then [] else [MVoid ''br'' [], MText (EscapeString v)])"

definition footMarkup :: "string \<Rightarrow> Markup list" where
  "footMarkup v = (if v = [] then [] else [MText (htmlEscaper v)])"

definition cellMarkup :: "string \<Rightarrow> int \<Rightarrow> int \<Rightarrow> Markup list" where
  "cellMarkup v row col =
     (if v = [] then []
      else if col = 4 then
        [MElem ''PersonRef'' [(''detlnk'', ''dpR'' @ itoa (row + 1) @ ''C'' @ itoa (col + 1))]
           [MText (EscapeString v)]]
      else if col = 1 \<or> col = 10 then
        [MElem ''PlaceRef'' [(''detlnk'', ''dwR'' @ itoa (row + 1) @ ''C'' @ itoa (col + 1))]
           [MText (EscapeString v)]]
      else
        [MElem ''Mark'' [(''ref'', ''R'' @ itoa (row + 1) @ ''C'' @ itoa (col + 1))]
           [MText (EscapeString v)]])"

definition rowMarkup :: "nat \<times> Row \<Rightarrow> Markup" where
  "rowMarkup p =
     MElem ''tr'' []
       (map (\<lambda>(ci, val). MElem ''td'' [] (cellMarkup val (int (fst p)) (int ci)))
          (enumerate 0 (Col (snd p))))"

text \<open>
  The content of the \<open>tbody\<close>: the line end and indentation before the \<open>range\<close>, the
  rows, each between the line end before its \<open>tr\<close> and the one after it, and the line
  end before \<open></tbody>\<close>; neighbouring runs of text are one text.
\<close>

definition bodyMarkup :: "Row list \<Rightarrow> Markup list" where
  "bodyMarkup Rows =
     concat (map (\<lambda>p. [MText ''\<newline>    \<newline>    '', rowMarkup p]) (enumerate 0 Rows))
     @ [MText ''\<newline>    \<newline>  '']"

definition pageMarkup :: "string list \<Rightarrow> Row list \<Rightarrow> string list \<Rightarrow> Markup list" where
  \<open>pageMarkup Header Rows Footer =
    [MDoctype ''html'',
     MText ''\<newline>'',
     MElem ''html'' [(''lang'', ''en'')]
        [MText ''\<newline>'',
         MElem ''head'' []
            [MVoid ''meta'' [(''charset'', ''UTF-8'')],
             MRaw ''title''
                ''1861 Census'',
             MText ''\<newline>'',
             MRaw ''style''
                ''\<newline>  .smaller-header { font-size: 8px; }\<newline>  .small-header   { font-size: 10px; }\<newline>  table, th, td   { border: 1px solid black; border-collapse: collapse; }\<newline>  th, td          { padding: 4px; font-size: 12px; }\<newline>  thead th        { background-color: #f0f0f0; }\<newline>'',
             MText ''\<newline>''],
         MText ''\<newline>'',
         MElem ''body'' []
            [MText ''\<newline>\<newline>'',
             MElem ''table'' [(''border'', ''1''), (''cellspacing'', ''0''), (''cellpadding'', ''0'')]
                [MText ''\<newline>  '',
                 MElem ''colgroup'' []
                    [MVoid ''col'' [(''style'', ''width:8.33%''), (''span'', ''7'')]],
                 MText ''\<newline>  '',
                 MElem ''thead'' []
                    [MText ''\<newline>    '',
                     MElem ''tr'' []
                        [MElem ''th'' [(''colspan'', ''7''), (''align'', ''center'')]
                            [MText ''\<newline>      The undermentioned Houses are situate within the Boundaries of the\<newline>    '']],
                     MText ''\<newline>    '',
                     MElem ''tr'' []
                        [MText ''\<newline>      '',
                         MElem ''th'' [(''style'', ''line-height:5em; padding-bottom:2em;'')]
                            (MText ''Parish [or Township] of'' #
                             headerMarkup (Header ! 0)),
                         MText ''\<newline>      '',
                         MElem ''th'' [(''style'', ''line-height:5em; padding-bottom:2em;'')]
                            (MText ''City or Municipal Borough of'' #
                             headerMarkup (Header ! 1)),
                         MText ''\<newline>      '',
                         MElem ''th'' [(''style'', ''line-height:5em; padding-bottom:2em;'')]
                            (MText ''Municipal Ward of'' #
                             headerMarkup (Header ! 2)),
                         MText ''\<newline>      '',
                         MElem ''th'' [(''style'', ''line-height:5em; padding-bottom:2em;'')]
                            (MText ''Parliamentary Borough of'' #
                             headerMarkup (Header ! 3)),
                         MText ''\<newline>      '',
                         MElem ''th'' [(''style'', ''line-height:5em; padding-bottom:2em;'')]
                            (MText ''Town of'' #
                             headerMarkup (Header ! 4)),
                         MText ''\<newline>      '',
                         MElem ''th'' [(''style'', ''line-height:5em; padding-bottom:2em;'')]
                            (MText ''Village or Hamlet of'' #
                             headerMarkup (Header ! 5)),
                         MText ''\<newline>      '',
                         MElem ''th'' [(''style'', ''line-height:5em; padding-bottom:2em;'')]
                            (MText ''Ecclesiastical District of'' #
                             headerMarkup (Header ! 6)),
                         MText ''\<newline>    ''],
                     MText ''\<newline>    '',
                     MElem ''tr'' []
                        [MText ''\<newline>      '',
                         MElem ''th'' [(''class'', ''small-header'')] [MText ''Sched. No.''],
                         MText ''\<newline>      '',
                         MElem ''th'' [(''class'', ''small-header'')] [MText ''Road, Street, &amp; No. or Name of House''],
                         MText ''\<newline>      '',
                         MElem ''th'' [(''class'', ''small-header'')] [MText ''Houses''],
                         MText ''\<newline>      '',
                         MElem ''th'' [(''class'', ''smaller-header'')] [MText ''Name &amp; Surname of each Person''],
                         MText ''\<newline>      '',
                         MElem ''th'' [(''class'', ''smaller-header'')] [MText ''Relation to Head of Family''],
                         MText ''\<newline>      '',
                         MElem ''th'' [(''class'', ''smaller-header'')] [MText ''Condition''],
                         MText ''\<newline>      '',
                         MElem ''th'' [(''class'', ''smaller-header'')] [MText ''Age of''],
                         MText ''\<newline>      '',
                         MElem ''th'' [(''class'', ''small-header'')] [MText ''Age of''],
                         MText ''\<newline>      '',
                         MElem ''th'' [(''class'', ''small-header'')] [MText ''Rank, Profession, or Occupation''],
                         MText ''\<newline>      '',
                         MElem ''th'' [(''class'', ''small-header'')] [MText ''Where Born''],
                         MText ''\<newline>      '',
                         MElem ''th'' [(''class'', ''small-header'')] [MText ''Whether Blind or Deaf-and-Dumb''],
                         MText ''\<newline>      '',
                         MElem ''th'' [(''class'', ''small-header'')] [],
                         MText ''\<newline>    ''],
                     MText ''\<newline>  ''],
                 MText ''\<newline>  '',
                 MElem ''tbody'' [] (bodyMarkup Rows),
                 MText ''\<newline>  \<newline>  '',
                 MElem ''tfoot'' []
                    [MText ''\<newline>    '',
                     MElem ''tr'' []
                        [MText ''\<newline>      '',
                         MElem ''td'' [(''colspan'', ''2''), (''align'', ''right'')] [MText ''Total of Houses...''],
                         MText ''\<newline>      '',
                         MElem ''td'' [] (footMarkup (Footer ! 0)),
                         MText ''\<newline>      '',
                         MElem ''td'' [] (footMarkup (Footer ! 1)),
                         MText ''\<newline>      '',
                         MElem ''td'' [(''colspan'', ''3''), (''align'', ''right'')] [MText ''Total of Males and Females...''],
                         MText ''\<newline>      '',
                         MElem ''td'' [] (footMarkup (Footer ! 2)),
                         MText ''\<newline>      '',
                         MElem ''td'' [] (footMarkup (Footer ! 3)),
                         MText ''\<newline>      '',
                         MElem ''td'' [(''colspan'', ''2'')] [],
                         MElem ''td'' [] [],
                         MText ''\<newline>    ''],
                     MText ''\<newline>  ''],
                 MText ''\<newline>''],
             MText ''\<newline>''],
         MText ''\<newline>'']]\<close>

text \<open>
  The traversals of the decoder with the ancestor test as a flag: whether the node has
  a \<open>tbody\<close> (a \<open>tfoot\<close>) ancestor. They carry no ancestors and are only used to
  compute the traversals of a given tree.
\<close>

fun collectTrB :: "bool \<Rightarrow> Node \<Rightarrow> Node list" where
  "collectTrB b (Node t d a cs) =
     (if isElem (Node t d a cs) ''tr'' \<and> b then [Node t d a cs] else [])
     @ concat (map (collectTrB (b \<or> (t = ElementNode \<and> d = ''tbody''))) cs)"

fun walkFooterB :: "bool \<Rightarrow> Node \<Rightarrow> string list" where
  "walkFooterB b (Node t d a cs) =
     (if isElem (Node t d a cs) ''td'' \<and> b
      then (if hasKey a ''colspan'' then []
            else textOf (Some (Node t d a cs))
                 # concat (map (walkFooterB (b \<or> (t = ElementNode \<and> d = ''tfoot''))) cs))
      else concat (map (walkFooterB (b \<or> (t = ElementNode \<and> d = ''tfoot''))) cs))"

text \<open>A page of the fixed sizes whose fields are all clean.\<close>

definition cleanPage :: "string list \<Rightarrow> Row list \<Rightarrow> string list \<Rightarrow> bool" where
  "cleanPage Header Rows Footer =
     (length Header = HeadCount \<and> list_all clean Header
      \<and> list_all (\<lambda>r. length (Col r) = FieldCount \<and> list_all clean (Col r)) Rows
      \<and> length Footer = FootCount \<and> list_all clean Footer)"

section \<open>Properties\<close>

subsection \<open>Trimming\<close>

lemma runeWidth_trimBy: "runeWidth encs (trimBy encs s) = 0"
proof (induction encs s rule: trimBy.induct)
  case (1 encs s)
  show ?case
  proof (cases "runeWidth encs s = 0")
    case True
    then show ?thesis by (simp add: trimBy.simps [of encs s])
  next
    case False
    with 1 show ?thesis by (simp add: trimBy.simps [of encs s])
  qed
qed

lemma trimBy_fixed: "runeWidth encs s = 0 \<Longrightarrow> trimBy encs s = s"
  by (simp add: trimBy.simps [of encs s])

lemma trimBy_is_drop: "\<exists>k. trimBy encs s = drop k s"
proof (induction encs s rule: trimBy.induct)
  case (1 encs s)
  show ?case
  proof (cases "runeWidth encs s = 0")
    case True
    then have "trimBy encs s = drop 0 s" by (simp add: trimBy.simps [of encs s])
    then show ?thesis by blast
  next
    case False
    with 1 obtain k where "trimBy encs (drop (runeWidth encs s) s) = drop k (drop (runeWidth encs s) s)"
      by blast
    with False have "trimBy encs s = drop (runeWidth encs s + k) s"
      by (simp add: trimBy.simps [of encs s] add.commute)
    then show ?thesis by blast
  qed
qed

lemma runeWidth_take: "runeWidth encs s = 0 \<Longrightarrow> runeWidth encs (take n s) = 0"
proof (induction encs)
  case Nil
  then show ?case by simp
next
  case (Cons e encs)
  from Cons.prems have ne: "\<not> (e \<noteq> [] \<and> take (length e) s = e)" and rest: "runeWidth encs s = 0"
    by (auto split: if_splits)
  have "\<not> (e \<noteq> [] \<and> take (length e) (take n s) = e)"
  proof
    assume a: "e \<noteq> [] \<and> take (length e) (take n s) = e"
    then have "length (take (length e) (take n s)) = length e" by simp
    then have "length e \<le> n" by (simp add: min_def split: if_splits)
    then have "take (length e) (take n s) = take (length e) s" by (simp add: min_def)
    with a ne show False by simp
  qed
  with Cons.IH [OF rest] show ?case by simp
qed

lemma TrimRight_is_take: "\<exists>n. TrimRight s = take n s"
proof -
  obtain k where "trimBy (map rev spaceRunes) (rev s) = drop k (rev s)"
    using trimBy_is_drop by blast
  then have "TrimRight s = take (length s - k) s"
    by (simp add: TrimRight_def rev_drop)
  then show ?thesis by blast
qed

lemma TrimSpace_idem: "TrimSpace (TrimSpace s) = TrimSpace s"
proof -
  have l0: "runeWidth spaceRunes (TrimLeft s) = 0"
    by (simp only: TrimLeft_def runeWidth_trimBy)
  obtain n where n: "TrimRight (TrimLeft s) = take n (TrimLeft s)"
    using TrimRight_is_take by blast
  have "runeWidth spaceRunes (TrimSpace s) = 0"
    unfolding TrimSpace_def n using l0 by (rule runeWidth_take)
  then have left: "TrimLeft (TrimSpace s) = TrimSpace s"
    by (simp add: TrimLeft_def trimBy_fixed)
  have "runeWidth (map rev spaceRunes) (rev (TrimRight (TrimLeft s))) = 0"
    by (simp only: TrimRight_def rev_rev_ident runeWidth_trimBy)
  then have "TrimRight (TrimRight (TrimLeft s)) = TrimRight (TrimLeft s)"
    by (simp add: TrimRight_def [of "TrimRight (TrimLeft s)"] trimBy_fixed)
  with left show ?thesis by (simp add: TrimSpace_def)
qed

lemma runeWidth_Nil: "runeWidth encs [] = 0"
  by (induction encs) auto

lemma TrimSpace_Nil: "TrimSpace [] = []"
  by (simp add: TrimSpace_def TrimLeft_def TrimRight_def trimBy_fixed runeWidth_Nil)

lemma TrimSpace_textOf: "TrimSpace (textOf x) = textOf x"
  by (cases x) (simp_all add: TrimSpace_Nil TrimSpace_idem)

subsection \<open>The header loop\<close>

lemma headLoop_length: "length (headLoop ths head idx) = length head"
  by (induction ths head idx rule: headLoop.induct) (auto split: option.splits)

lemma headLoop_nth:
  "i < length head \<Longrightarrow> length head = HeadCount \<Longrightarrow>
   headLoop ths head idx ! i =
     (if idx \<le> i \<and> i - idx < length (brVals ths) then brVals ths ! (i - idx) else head ! i)"
proof (induction ths head idx rule: headLoop.induct)
  case (1 head idx)
  then show ?case by simp
next
  case (2 th ths head idx)
  show ?case
  proof (cases "idx \<ge> HeadCount")
    case True
    with 2 show ?thesis by simp
  next
    case False
    show ?thesis
    proof (cases "brValue (Children th)")
      case None
      with False 2 show ?thesis by simp
    next
      case (Some v)
      with False 2 have "headLoop (th # ths) head idx ! i =
          (if idx + 1 \<le> i \<and> i - (idx + 1) < length (brVals ths) then brVals ths ! (i - (idx + 1))
           else head[idx := v] ! i)"
        by simp
      with Some False 2 show ?thesis
        by (cases "i = idx") (auto simp: nth_Cons' Suc_diff_Suc not_le)
    qed
  qed
qed

lemma pad_length: "length (pad n xs) = n"
  by (simp add: pad_def)

lemma pad_nth: "i < n \<Longrightarrow> pad n xs ! i = (if i < length xs then xs ! i else [])"
  by (simp add: pad_def nth_append)

lemma brValue_spec:
  "brValue cs =
     (if filter isBr cs = [] then None
      else Some (textOf (case dropWhile (\<lambda>c. \<not> isBr c) cs of b # sib # _ \<Rightarrow> Some sib | _ \<Rightarrow> None)))"
proof (induction cs)
  case Nil
  then show ?case by simp
next
  case (Cons c cs)
  show ?case
  proof (cases "isBr c")
    case True
    then show ?thesis
      by (cases cs) (simp_all add: isBr_def TrimSpace_textOf del: textOf.simps)
  next
    case False
    with Cons show ?thesis by (simp add: isBr_def)
  qed
qed

lemma brVals_spec: "brVals ths = map (\<lambda>th. textOf (afterFirstBr th)) (filter hasBr ths)"
  by (induction ths) (simp_all add: brValue_spec hasBr_def afterFirstBr_def)

lemma extractHead_spec: "extractHead doc = headerSlots doc"
proof (rule nth_equalityI)
  show "length (extractHead doc) = length (headerSlots doc)"
    by (simp add: extractHead_def headLoop_length zeroHead_def headerSlots_def pad_length)
next
  fix i assume "i < length (extractHead doc)"
  then have i: "i < HeadCount"
    by (simp add: extractHead_def headLoop_length zeroHead_def)
  then show "extractHead doc ! i = headerSlots doc ! i"
    by (simp add: extractHead_def headLoop_nth zeroHead_def headerSlots_def pad_nth brVals_spec)
qed

subsection \<open>The row loop\<close>

lemma cellLoop_length: "length (cellLoop sibs ci col) = length col"
  by (induction sibs ci col rule: cellLoop.induct) auto

lemma cellLoop_nth:
  "i < length col \<Longrightarrow> length col = FieldCount \<Longrightarrow>
   cellLoop sibs ci col ! i =
     (if ci \<le> i \<and> i - ci < length (filter isTd sibs)
      then textOf (Some (filter isTd sibs ! (i - ci))) else col ! i)"
proof (induction sibs ci col rule: cellLoop.induct)
  case (1 ci col)
  then show ?case by simp
next
  case (2 td sibs ci col)
  show ?case
  proof (cases "ci < FieldCount")
    case False
    with 2 show ?thesis by simp
  next
    case True
    show ?thesis
    proof (cases "isElem td ''td''")
      case False
      then have "\<not> isTd td" by (simp add: isTd_def)
      with False True 2 show ?thesis by simp
    next
      case td: True
      then have tdT: "isTd td" by (simp add: isTd_def)
      from td True 2 have "cellLoop (td # sibs) ci col ! i =
          (if ci + 1 \<le> i \<and> i - (ci + 1) < length (filter isTd sibs)
           then textOf (Some (filter isTd sibs ! (i - (ci + 1))))
           else col[ci := textOf (Some td)] ! i)"
        by simp
      with tdT True "2.prems" show ?thesis
        by (cases "i = ci") (auto simp: nth_Cons' Suc_diff_Suc not_le simp del: textOf.simps)
    qed
  qed
qed

lemma cellLoop_spec:
  "cellLoop sibs 0 (replicate FieldCount []) = pad FieldCount (map (\<lambda>td. textOf (Some td)) (filter isTd sibs))"
proof (rule nth_equalityI)
  show "length (cellLoop sibs 0 (replicate FieldCount [])) =
        length (pad FieldCount (map (\<lambda>td. textOf (Some td)) (filter isTd sibs)))"
    by (simp add: cellLoop_length pad_length)
next
  fix i assume "i < length (cellLoop sibs 0 (replicate FieldCount []))"
  then have "i < FieldCount" by (simp add: cellLoop_length)
  then show "cellLoop sibs 0 (replicate FieldCount []) ! i =
             pad FieldCount (map (\<lambda>td. textOf (Some td)) (filter isTd sibs)) ! i"
    by (simp add: cellLoop_nth pad_nth del: textOf.simps)
qed

lemma rowLoop_length: "length (rowLoop trs ri rows) = length rows"
proof (induction trs ri rows rule: rowLoop.induct)
  case (1 trs ri rows)
  show ?case
  proof (cases "ri < length trs \<and> ri < RowCount")
    case True
    with 1 show ?thesis by (simp add: rowLoop.simps [of trs ri rows])
  next
    case False
    then show ?thesis by (auto simp add: rowLoop.simps [of trs ri rows])
  qed
qed

lemma rowLoop_nth:
  "i < length rows \<Longrightarrow> length rows = RowCount \<Longrightarrow>
   rowLoop trs ri rows ! i =
     (if ri \<le> i \<and> i < length trs
      then (rows ! i)\<lparr>Col := cellLoop (Children (trs ! i)) 0 (Col (rows ! i))\<rparr>
      else rows ! i)"
proof (induction trs ri rows rule: rowLoop.induct)
  case (1 trs ri rows)
  show ?case
  proof (cases "ri < length trs \<and> ri < RowCount")
    case False
    with "1.prems" show ?thesis by (auto simp add: rowLoop.simps [of trs ri rows])
  next
    case True
    let ?rows' = "rows[ri := (rows ! ri)\<lparr>Col := cellLoop (Children (trs ! ri)) 0 (Col (rows ! ri))\<rparr>]"
    from True have eq: "rowLoop trs ri rows = rowLoop trs (ri + 1) ?rows'"
      by (simp add: rowLoop.simps [of trs ri rows])
    from "1.prems" have "i < length ?rows'" "length ?rows' = RowCount" by simp_all
    from "1.IH" [OF True this] have
      "rowLoop trs (ri + 1) ?rows' ! i =
         (if ri + 1 \<le> i \<and> i < length trs
          then (?rows' ! i)\<lparr>Col := cellLoop (Children (trs ! i)) 0 (Col (?rows' ! i))\<rparr>
          else ?rows' ! i)" .
    with eq True "1.prems" show ?thesis
      by (cases "i = ri") auto
  qed
qed

lemma extractRows_spec: "extractRows doc = rowSlots doc"
proof (rule nth_equalityI)
  show "length (extractRows doc) = length (rowSlots doc)"
    by (simp add: extractRows_def rowLoop_length zeroRows_def rowSlots_def)
next
  fix i assume "i < length (extractRows doc)"
  then have i: "i < RowCount"
    by (simp add: extractRows_def rowLoop_length zeroRows_def)
  then show "extractRows doc ! i = rowSlots doc ! i"
    by (simp add: extractRows_def rowLoop_nth zeroRows_def zeroRow_def rowSlots_def nth_append
        rowOf_def cellLoop_spec)
qed

subsection \<open>The footer walk\<close>

lemma footLoop_length: "length (footLoop vs i foot) = length foot"
  by (induction vs i foot rule: footLoop.induct) auto

lemma footLoop_nth:
  "k < length foot \<Longrightarrow> length foot = FootCount \<Longrightarrow>
   footLoop vs i foot ! k = (if i \<le> k \<and> k - i < length vs then vs ! (k - i) else foot ! k)"
proof (induction vs i foot rule: footLoop.induct)
  case (1 i foot)
  then show ?case by simp
next
  case (2 v vs i foot)
  show ?case
  proof (cases "i < FootCount")
    case False
    with 2 show ?thesis by simp
  next
    case True
    with 2 have "footLoop (v # vs) i foot ! k =
        (if i + 1 \<le> k \<and> k - (i + 1) < length vs then vs ! (k - (i + 1)) else foot[i := v] ! k)"
      by simp
    with True "2.prems" show ?thesis
      by (cases "k = i") (auto simp: nth_Cons' Suc_diff_Suc not_le)
  qed
qed

lemma footLoop_spec: "footLoop vs 0 zeroFoot = pad FootCount vs"
proof (rule nth_equalityI)
  show "length (footLoop vs 0 zeroFoot) = length (pad FootCount vs)"
    by (simp add: footLoop_length pad_length zeroFoot_def)
next
  fix k assume "k < length (footLoop vs 0 zeroFoot)"
  then have "k < FootCount" by (simp add: footLoop_length zeroFoot_def)
  then show "footLoop vs 0 zeroFoot ! k = pad FootCount vs ! k"
    by (simp add: footLoop_nth pad_nth zeroFoot_def)
qed

lemma tfootTds_inLabelCell:
  "inLabelCell anc \<Longrightarrow> filter (\<lambda>(n, a). \<not> hasColspan n \<and> \<not> inLabelCell a) (tfootTds anc n) = []"
proof (induction anc n rule: tfootTds.induct)
  case (1 anc t d a cs)
  have "filter (\<lambda>(n, a). \<not> hasColspan n \<and> \<not> inLabelCell a) (tfootTds (Node t d a cs # anc) c) = []"
    if "c \<in> set cs" for c
    using "1.IH" [OF that] "1.prems" by simp
  then have "concat (map (\<lambda>c. filter (\<lambda>(n, a). \<not> hasColspan n \<and> \<not> inLabelCell a)
                 (tfootTds (Node t d a cs # anc) c)) cs) = []"
    by simp
  with "1.prems" show ?case
    by (simp add: filter_concat comp_def)
qed

lemma walkFooter_spec:
  "\<not> inLabelCell anc \<Longrightarrow>
   walkFooter anc n =
     map (\<lambda>td. textOf (Some td))
       (map fst (filter (\<lambda>(n, a). \<not> hasColspan n \<and> \<not> inLabelCell a) (tfootTds anc n)))"
proof (induction anc n rule: walkFooter.induct)
  case (1 anc t d a cs)
  let ?n = "Node t d a cs"
  let ?P = "\<lambda>(n, a). \<not> hasColspan n \<and> \<not> inLabelCell a"
  let ?sel = "\<lambda>anc n. map (\<lambda>td. textOf (Some td)) (map fst (filter ?P (tfootTds anc n)))"
  have sub: "concat (map (?sel (?n # anc)) cs)
             = map (\<lambda>td. textOf (Some td)) (map fst (filter ?P (concat (map (tfootTds (?n # anc)) cs))))"
    by (simp add: filter_concat map_concat comp_def)
  show ?case
  proof (cases "isElem ?n ''td'' \<and> ancestorTag anc ''tfoot''")
    case cell: True
    show ?thesis
    proof (cases "hasKey a ''colspan''")
      case True
      then have lab: "inLabelCell (?n # anc)"
        using cell by (simp add: hasColspan_def)
      have "filter ?P (tfootTds (?n # anc) c) = []" for c
        using lab by (rule tfootTds_inLabelCell)
      then have "filter ?P (concat (map (tfootTds (?n # anc)) cs)) = []"
        by (simp add: filter_concat comp_def)
      with True cell show ?thesis
        by (simp add: hasColspan_def del: textOf.simps)
    next
      case False
      then have nl: "\<not> inLabelCell (?n # anc)"
        using "1.prems" by (simp add: hasColspan_def)
      have "walkFooter (?n # anc) c = ?sel (?n # anc) c" if "c \<in> set cs" for c
        using "1.IH"(1) [OF cell False that nl] .
      then have "concat (map (walkFooter (?n # anc)) cs) = concat (map (?sel (?n # anc)) cs)"
        by (simp cong: map_cong)
      with False cell "1.prems" sub show ?thesis
        by (simp add: hasColspan_def del: textOf.simps)
    qed
  next
    case False
    then have nl: "\<not> inLabelCell (?n # anc)"
      using "1.prems" by auto
    have "walkFooter (?n # anc) c = ?sel (?n # anc) c" if "c \<in> set cs" for c
      using "1.IH"(2) [OF False that nl] .
    then have "concat (map (walkFooter (?n # anc)) cs) = concat (map (?sel (?n # anc)) cs)"
      by (simp cong: map_cong)
    with False sub show ?thesis
      by (auto simp del: textOf.simps)
  qed
qed

lemma extractFoot_spec: "extractFoot doc = footerSlots doc"
  by (simp add: extractFoot_def footLoop_spec footerSlots_def valueCells_def walkFooter_spec
        del: textOf.simps)

subsection \<open>The decoder as a whole\<close>

lemma ParseHTML_cases:
  "ParseHTML w path =
     (case files w (filepath_Clean path) of
        None \<Rightarrow> (zeroHead, zeroRows, zeroFoot, Some ReadError)
      | Some Directory \<Rightarrow> (zeroHead, zeroRows, zeroFoot, Some ParseError)
      | Some (Regular s) \<Rightarrow>
          (headerSlots (parseDocument s), rowSlots (parseDocument s),
           footerSlots (parseDocument s), None))"
  by (simp add: ParseHTML_def os_Open_def html_Parse_def extractHead_spec extractRows_spec
      extractFoot_spec split: option.splits File.splits)

lemma pad_all: "P [] \<Longrightarrow> \<forall>x\<in>set xs. P x \<Longrightarrow> \<forall>x\<in>set (pad n xs). P x"
  by (auto simp: pad_def dest: in_set_takeD)

lemma headerSlots_trimmed: "\<forall>h\<in>set (headerSlots doc). TrimSpace h = h"
  unfolding headerSlots_def
  by (rule pad_all) (auto simp: TrimSpace_Nil TrimSpace_textOf simp del: textOf.simps)

lemma footerSlots_trimmed: "\<forall>f\<in>set (footerSlots doc). TrimSpace f = f"
  unfolding footerSlots_def
  by (rule pad_all) (auto simp: TrimSpace_Nil TrimSpace_textOf simp del: textOf.simps)

lemma rowOf_trimmed: "\<forall>c\<in>set (Col (rowOf tr)). TrimSpace c = c"
  unfolding rowOf_def Row.simps
  by (rule pad_all) (auto simp: TrimSpace_Nil TrimSpace_textOf simp del: textOf.simps)

lemma rowSlots_trimmed: "\<forall>r\<in>set (rowSlots doc). \<forall>c\<in>set (Col r). TrimSpace c = c"
  using rowOf_trimmed
  by (auto simp: rowSlots_def zeroRow_def TrimSpace_Nil dest!: in_set_takeD)

lemma zero_trimmed:
  "\<forall>h\<in>set zeroHead. TrimSpace h = h"
  "\<forall>r\<in>set zeroRows. \<forall>c\<in>set (Col r). TrimSpace c = c"
  "\<forall>f\<in>set zeroFoot. TrimSpace f = f"
  by (auto simp: zeroHead_def zeroRows_def zeroRow_def zeroFoot_def TrimSpace_Nil)


subsection \<open>A sample decode\<close>

lemma sample_decode:
  "ParseHTML sampleWorld ''page.html'' =
    ([''Ham'', [], [], [], [], [], []],
     \<lparr>Col = [''a'', ''b & c'', [], [], [], [], [], [], [], [], [], []]\<rparr>
       # replicate 24 \<lparr>Col = replicate 12 []\<rparr>,
     [''7'', [], [], []], None)"
  by code_simp

lemma valueCells_no_colspan: "filter hasColspan (valueCells doc) = []"
  by (auto simp add: valueCells_def filter_map comp_def filter_empty_conv split_def)

subsection \<open>Decimal numerals\<close>

lemma digits_small: "n < 10 \<Longrightarrow> digits n = [char_of (48 + n)]"
  by (simp add: digits.simps [of n])

lemma digits_large: "\<not> n < 10 \<Longrightarrow> digits n = digits (n div 10) @ [char_of (48 + n mod 10)]"
  by (simp add: digits.simps [of n])

lemma decimal_append: "decimal acc (xs @ ys) = decimal (decimal acc xs) ys"
  by (induction xs arbitrary: acc) simp_all

lemma of_char_digit: "d < 10 \<Longrightarrow> (of_char (char_of (48 + d) :: char) :: nat) = 48 + d"
  by simp

lemma decimal_digits: "decimal 0 (digits n) = n"
proof (induction n rule: digits.induct)
  case (1 n)
  show ?case
  proof (cases "n < 10")
    case True
    then show ?thesis by (simp add: digits_small)
  next
    case False
    with 1 show ?thesis by (simp add: digits_large decimal_append)
  qed
qed

lemma digits_isDigit: "\<forall>c\<in>set (digits n). isDigit c"
proof (induction n rule: digits.induct)
  case (1 n)
  show ?case
  proof (cases "n < 10")
    case True
    then show ?thesis by (simp add: digits_small isDigit_def)
  next
    case False
    with 1 show ?thesis by (simp add: digits_large isDigit_def)
  qed
qed

lemma digits_5: "digits 5 = ''5''"
  by code_simp

lemma itoa_small: "itoa 1 = ''1''" "itoa 2 = ''2''" "itoa 11 = ''11''" "itoa 12 = ''12''" "itoa 25 = ''25''"
  by code_simp+

subsection \<open>The two decoders\<close>

lemma walk_main_eq: "walk_main n = walk n"
  by (induction n rule: walk.induct) (simp cong: map_cong)

lemma textOf_main_eq: "textOf_main x = textOf x"
  by (cases x) (simp_all add: walk_main_eq)

lemma isElem_main_eq: "isElem_main n tag = isElem n tag"
  by (simp add: isElem_main_def isElem_def)

lemma ancestorTag_main_eq: "ancestorTag_main anc tag = ancestorTag anc tag"
  by (induction anc) simp_all

lemma collectTh_main_eq: "collectTh_main n = collectTh n"
  by (induction n rule: collectTh.induct) (simp add: isElem_main_eq cong: map_cong)

lemma brValue_main_eq: "brValue_main cs = brValue cs"
  by (induction cs) (simp_all add: isElem_main_eq textOf_main_eq del: textOf.simps textOf_main.simps)

lemma headLoop_main_eq: "headLoop_main ths head idx = headLoop ths head idx"
  by (induction ths head idx rule: headLoop.induct)
     (simp_all add: brValue_main_eq split: option.splits)

lemma collectTr_main_eq: "collectTr_main anc n = collectTr anc n"
  by (induction anc n rule: collectTr.induct)
     (simp add: isElem_main_eq ancestorTag_main_eq cong: map_cong)

lemma cellLoop_main_eq: "cellLoop_main sibs ci col = cellLoop sibs ci col"
  by (induction sibs ci col rule: cellLoop.induct)
     (simp_all add: isElem_main_eq textOf_main_eq del: textOf.simps textOf_main.simps)

lemma rowLoop_main_eq: "rowLoop_main trs ri rows = rowLoop trs ri rows"
proof (induction trs ri rows rule: rowLoop.induct)
  case (1 trs ri rows)
  show ?case
  proof (cases "ri < length trs \<and> ri < RowCount")
    case True
    with 1 show ?thesis
      by (simp add: rowLoop.simps [of trs ri rows] rowLoop_main.simps [of trs ri rows] cellLoop_main_eq)
  next
    case False
    then show ?thesis
      by (auto simp add: rowLoop.simps [of trs ri rows] rowLoop_main.simps [of trs ri rows])
  qed
qed

lemma walkFooter_main_eq: "walkFooter_main anc n = walkFooter anc n"
  by (induction anc n rule: walkFooter.induct)
     (simp add: isElem_main_eq ancestorTag_main_eq textOf_main_eq cong: map_cong
        del: textOf.simps textOf_main.simps)

lemma footLoop_main_eq: "footLoop_main vs i foot = footLoop vs i foot"
  by (induction vs i foot rule: footLoop.induct) simp_all

lemma parseHTML_main_eq: "parseHTML_main w path = ParseHTML w path"
  by (simp add: parseHTML_main_def ParseHTML_def extractHead_def extractRows_def extractFoot_def
      collectTh_main_eq headLoop_main_eq collectTr_main_eq rowLoop_main_eq walkFooter_main_eq
      footLoop_main_eq split: sum.splits)

lemma headerVal_main_eq: "headerVal_main v = headerVal v"
  by (simp add: headerVal_main_def headerVal_def)

lemma wrapCell_main_eq: "wrapCell_main v r c = wrapCell v r c"
  by (simp add: wrapCell_main_def wrapCell_def)

subsection \<open>The two page templates\<close>

lemma hamlet_label_differs:
  \<open>''      <th style="line-height:5em; padding-bottom:2em;">Village or Hamlet of'' @ X
   \<noteq> ''      <th style="line-height:5em; padding-bottom:2em;">Hamlet or Tything, &amp;c., of'' @ Y\<close>
  by simp

lemma templates_differ: "pageTmpl h r f \<noteq> pageTmpl_main h r f"
  unfolding pageTmpl_def pageTmpl_main_def headerVal_main_eq
  by (simp only: same_append_eq hamlet_label_differs not_False_eq_True)

section \<open>Parsing printed markup\<close>

subsection \<open>Name characters\<close>

lemma isNameChar_plain:
  "isNameChar c \<Longrightarrow>
     \<not> isSep c \<and> \<not> isWS c \<and> c \<noteq> CHR ''>'' \<and> c \<noteq> CHR ''<'' \<and> c \<noteq> CHR ''='' \<and> c \<noteq> CHR 0x22
     \<and> c \<noteq> CHR 0x27 \<and> c \<noteq> CHR ''!'' \<and> c \<noteq> CHR ''/''"
  by (auto simp: isNameChar_def isSep_def isWS_def)

lemma lower_slash: "lower (CHR ''/'') = CHR ''/''"
  by (simp add: lower_def)

lemma sep_facts:
  "\<not> isSep (CHR ''='')" "\<not> isWS (CHR ''='')" "isSep (CHR '' '')" "isWS (CHR '' '')"
  "\<not> isWS (CHR 0x22)" "\<not> isSep (CHR 0x22)" "\<not> isWS (CHR ''>'')" "\<not> isSep (CHR ''>'')"
  by (simp_all add: isSep_def isWS_def)

subsection \<open>Scanning a printed tag\<close>

lemma tagLen_plain:
  "list_all isNameChar xs \<Longrightarrow> tagLen None (xs @ r) = length xs + tagLen None r"
  by (induction xs) (auto dest: isNameChar_plain)

lemma tagLen_quoted:
  "q \<notin> set v \<Longrightarrow> tagLen (Some q) (v @ q # r) = Suc (length v + tagLen None r)"
  by (induction v) auto

lemma tagLen_printAttrs:
  "list_all attrOK as \<Longrightarrow> tagLen None (printAttrs as @ CHR ''>'' # r) = length (printAttrs as)"
proof (induction as)
  case Nil
  then show ?case by (simp add: printAttrs_def)
next
  case (Cons kv as)
  then have k: "list_all isNameChar (fst kv)" and v: "CHR 0x22 \<notin> set (snd kv)"
    by (simp_all add: attrOK_def nameOK_def)
  have "tagLen None (printAttr kv @ printAttrs as @ CHR ''>'' # r)
        = length (printAttr kv) + tagLen None (printAttrs as @ CHR ''>'' # r)"
    using k v by (simp add: printAttr_def tagLen_plain tagLen_quoted)
  with Cons show ?case by (simp add: printAttrs_def)
qed

lemma tagLen_tag:
  "nameOK n \<Longrightarrow> list_all attrOK as \<Longrightarrow>
   tagLen None (n @ printAttrs as @ CHR ''>'' # r) = length (n @ printAttrs as)"
  by (simp add: nameOK_def tagLen_plain tagLen_printAttrs)

lemma scan_name:
  "list_all isNameChar k \<Longrightarrow>
   scanAttrs (InName acc) (k @ CHR ''='' # r) = scanAttrs (BeforeVal (acc @ k)) r"
  by (induction k arbitrary: acc) (auto simp: sep_facts dest: isNameChar_plain)

lemma scan_quoted:
  "q \<notin> set v \<Longrightarrow>
   scanAttrs (InQuoted k q acc) (v @ q # r) = mkAttr k (acc @ v) # scanAttrs BeforeName r"
  by (induction v arbitrary: acc) auto

lemma scan_printAttr:
  assumes "attrOK kv"
  shows "scanAttrs BeforeName (printAttr kv @ r) = attrOf kv # scanAttrs BeforeName r"
proof -
  from assms obtain c k where k: "fst kv = c # k" "isNameChar c" "list_all isNameChar k"
    by (cases "fst kv") (auto simp: attrOK_def nameOK_def)
  from assms have v: "CHR 0x22 \<notin> set (snd kv)" by (simp add: attrOK_def)
  have "scanAttrs BeforeName (printAttr kv @ r)
        = scanAttrs (InName [c]) (k @ CHR ''='' # CHR 0x22 # snd kv @ CHR 0x22 # r)"
    using k isNameChar_plain [of c] by (simp add: printAttr_def sep_facts)
  also have "\<dots> = scanAttrs (BeforeVal (c # k)) (CHR 0x22 # snd kv @ CHR 0x22 # r)"
    using k by (simp add: scan_name)
  also have "\<dots> = scanAttrs (InQuoted (c # k) (CHR 0x22) []) (snd kv @ CHR 0x22 # r)"
    by (simp add: sep_facts)
  also have "\<dots> = mkAttr (c # k) (snd kv) # scanAttrs BeforeName r"
    using v by (simp add: scan_quoted)
  finally show ?thesis using k by (simp add: attrOf_def)
qed

lemma scan_printAttrs:
  "list_all attrOK as \<Longrightarrow> scanAttrs BeforeName (printAttrs as) = map attrOf as"
proof (induction as)
  case Nil
  then show ?case by (simp add: printAttrs_def)
next
  case (Cons kv as)
  then show ?case
    using scan_printAttr [of kv "printAttrs as"] by (simp add: printAttrs_def)
qed

lemma printAttrs_starts:
  "printAttrs as = [] \<or> hd (printAttrs as) = CHR '' ''"
  by (cases as) (simp_all add: printAttrs_def printAttr_def)

lemma takeWhile_name:
  "list_all isNameChar n \<Longrightarrow>
   takeWhile (\<lambda>c. \<not> isSep c) (n @ printAttrs as) = n
   \<and> dropWhile (\<lambda>c. \<not> isSep c) (n @ printAttrs as) = printAttrs as"
proof (induction n)
  case Nil
  show ?case
    using printAttrs_starts [of as]
    by (cases "printAttrs as") (auto simp: sep_facts)
next
  case (Cons c n)
  then show ?case using isNameChar_plain [of c] by simp
qed

lemma tagName_tag: "nameOK n \<Longrightarrow> tagName (n @ printAttrs as) = map lower n"
  by (simp add: tagName_def nameOK_def takeWhile_name)

lemma tagAttrs_tag:
  "nameOK n \<Longrightarrow> list_all attrOK as \<Longrightarrow> tagAttrs (n @ printAttrs as) = map attrOf as"
  by (simp add: tagAttrs_def nameOK_def takeWhile_name scan_printAttrs)

subsection \<open>Tokens of printed markup\<close>

lemma name_first:
  "nameOK n \<Longrightarrow> take 3 (n @ r) \<noteq> ''!--'' \<and> take 1 (n @ r) \<noteq> ''!'' \<and> take 1 (n @ r) \<noteq> ''/''"
  by (cases n) (auto simp: nameOK_def dest: isNameChar_plain)

lemma tok_text:
  "s \<noteq> [] \<Longrightarrow> CHR ''<'' \<notin> set s \<Longrightarrow> r = [] \<or> hd r = CHR ''<'' \<Longrightarrow>
   tokenize (s @ r) = TextToken (textData s) # tokenize r"
proof -
  assume s: "s \<noteq> []" "CHR ''<'' \<notin> set s" and r: "r = [] \<or> hd r = CHR ''<''"
  then obtain c s' where cs: "s = c # s'" by (cases s) auto
  with s have c: "c \<noteq> CHR ''<''" and s': "\<forall>x\<in>set s'. x \<noteq> CHR ''<''" by auto
  from r have tw: "takeWhile (\<lambda>x. x \<noteq> CHR ''<'') r = []" and dw: "dropWhile (\<lambda>x. x \<noteq> CHR ''<'') r = r"
    by (cases r; auto)+
  from s' have "takeWhile (\<lambda>x. x \<noteq> CHR ''<'') (s' @ r) = s' @ takeWhile (\<lambda>x. x \<noteq> CHR ''<'') r"
    and "dropWhile (\<lambda>x. x \<noteq> CHR ''<'') (s' @ r) = dropWhile (\<lambda>x. x \<noteq> CHR ''<'') r"
    by (simp_all add: takeWhile_append2 dropWhile_append2)
  with c tw dw show ?thesis
    by (simp add: cs tokenize.simps(2) [of c "s' @ r"])
qed

lemma tok_start_general:
  assumes "take 3 s \<noteq> ''!--''" and "take 1 s \<noteq> ''!''" and "take 1 s \<noteq> ''/''"
    and "take (tagLen None s) s = body" and "drop (Suc (tagLen None s)) s = rest"
    and "tagName body \<notin> set rawTags"
  shows "tokenize (CHR ''<'' # s) = StartTagToken (tagName body) (tagAttrs body) # tokenize rest"
  using assms by (simp add: tokenize.simps(2) [of "CHR ''<''" s] Let_def)

lemma tok_start:
  assumes "nameOK n" and "list_all attrOK as" and "map lower n \<notin> set rawTags"
  shows "tokenize (CHR ''<'' # n @ printAttrs as @ CHR ''>'' # r)
         = StartTagToken (map lower n) (map attrOf as) # tokenize r"
proof -
  let ?s = "n @ printAttrs as @ CHR ''>'' # r"
  have len: "tagLen None ?s = length (n @ printAttrs as)"
    using assms by (simp add: tagLen_tag)
  have body: "take (tagLen None ?s) ?s = n @ printAttrs as"
    unfolding len by simp
  have rest: "drop (Suc (tagLen None ?s)) ?s = r"
    unfolding len by simp
  have raw: "tagName (n @ printAttrs as) \<notin> set rawTags"
    using assms by (simp add: tagName_tag)
  from name_first [OF assms(1), of "printAttrs as @ CHR ''>'' # r"]
  have "tokenize (CHR ''<'' # ?s)
        = StartTagToken (tagName (n @ printAttrs as)) (tagAttrs (n @ printAttrs as)) # tokenize r"
    by (intro tok_start_general body rest raw) simp_all
  with assms show ?thesis by (simp add: tagName_tag tagAttrs_tag)
qed

lemma tok_end_general:
  assumes "take 3 s \<noteq> ''!--''" and "take 1 s \<noteq> ''!''" and "take 1 s = ''/''"
    and "take (tagLen None s) s = body" and "drop (Suc (tagLen None s)) s = rest"
  shows "tokenize (CHR ''<'' # s) = EndTagToken (tagName (drop 1 body)) # tokenize rest"
  using assms by (simp add: tokenize.simps(2) [of "CHR ''<''" s])

lemma tagName_plain: "list_all isNameChar n \<Longrightarrow> tagName n = map lower n"
proof -
  assume "list_all isNameChar n"
  then have "takeWhile (\<lambda>c. \<not> isSep c) n = n"
    by (auto simp: takeWhile_eq_all_conv list_all_iff dest: isNameChar_plain)
  then show ?thesis by (simp only: tagName_def)
qed

lemma tok_end:
  assumes "nameOK n"
  shows "tokenize (''</'' @ n @ CHR ''>'' # r) = EndTagToken (map lower n) # tokenize r"
proof -
  let ?s = "CHR ''/'' # n @ CHR ''>'' # r"
  from assms have n: "list_all isNameChar n" by (simp add: nameOK_def)
  have len: "tagLen None ?s = Suc (length n)"
    using n by (simp add: tagLen_plain)
  have body: "take (tagLen None ?s) ?s = CHR ''/'' # n"
    unfolding len by simp
  have rest: "drop (Suc (tagLen None ?s)) ?s = r"
    unfolding len by simp
  have "tokenize (CHR ''<'' # ?s) = EndTagToken (tagName (drop 1 (CHR ''/'' # n))) # tokenize r"
    by (intro tok_end_general body rest) simp_all
  with n show ?thesis by (simp add: tagName_plain)
qed

lemma tok_doctype_general:
  assumes "take 3 s \<noteq> ''!--''" and "take 1 s = ''!''"
    and "take (tagLen None s) s = body" and "drop (Suc (tagLen None s)) s = rest"
  shows "tokenize (CHR ''<'' # s) = DoctypeToken (drop 1 (dropWhile (\<lambda>c. \<not> isWS c) body)) # tokenize rest"
  using assms by (simp add: tokenize.simps(2) [of "CHR ''<''" s])

lemma tagLen_free:
  "CHR ''>'' \<notin> set xs \<Longrightarrow> CHR 0x22 \<notin> set xs \<Longrightarrow> CHR 0x27 \<notin> set xs \<Longrightarrow>
   tagLen None (xs @ r) = length xs + tagLen None r"
  by (induction xs) auto

lemma tok_doctype:
  assumes "wf (MDoctype d)"
  shows "tokenize (print (MDoctype d) @ r) = DoctypeToken d # tokenize r"
proof -
  let ?s = "''!DOCTYPE '' @ d @ CHR ''>'' # r"
  from assms have d: "CHR ''>'' \<notin> set d" "CHR 0x22 \<notin> set d" "CHR 0x27 \<notin> set d"
    by simp_all
  have "tagLen None ?s = 9 + tagLen None (d @ CHR ''>'' # r)" by simp
  with d have len: "tagLen None ?s = 9 + length d" by (simp add: tagLen_free)
  have body: "take (tagLen None ?s) ?s = ''!DOCTYPE '' @ d"
    unfolding len by (simp add: eval_nat_numeral)
  have rest: "drop (Suc (tagLen None ?s)) ?s = r"
    unfolding len by (simp add: eval_nat_numeral)
  have "tokenize (CHR ''<'' # ?s)
        = DoctypeToken (drop 1 (dropWhile (\<lambda>c. \<not> isWS c) (''!DOCTYPE '' @ d))) # tokenize r"
    by (intro tok_doctype_general body rest) simp_all
  then show ?thesis by (simp add: isWS_def)
qed

lemma rawLen_found:
  "CHR ''<'' \<notin> set s \<Longrightarrow> rawLen (map lower n) (s @ ''</'' @ n @ r) = length s"
  by (induction s) (auto simp add: lower_slash)

lemma tok_raw_general:
  assumes "take 3 s \<noteq> ''!--''" and "take 1 s \<noteq> ''!''" and "take 1 s \<noteq> ''/''"
    and "take (tagLen None s) s = body" and "drop (Suc (tagLen None s)) s = rest"
    and "tagName body \<in> set rawTags"
  shows "tokenize (CHR ''<'' # s) =
           StartTagToken (tagName body) (tagAttrs body)
           # textTokens (rawData (tagName body) (take (rawLen (tagName body) rest) rest))
           @ tokenize (drop (rawLen (tagName body) rest) rest)"
  using assms by (simp add: tokenize.simps(2) [of "CHR ''<''" s] Let_def rawData_def)

lemma tok_raw:
  assumes "wf (MRaw n s)"
  shows "tokenize (print (MRaw n s) @ r) = mtoks (MRaw n s) @ tokenize r"
proof -
  let ?rest = "s @ ''</'' @ n @ CHR ''>'' # r"
  let ?s = "n @ CHR ''>'' # ?rest"
  from assms have n: "nameOK n" "list_all isNameChar n" and raw: "map lower n \<in> set rawTags"
    and s: "CHR ''<'' \<notin> set s"
    by (simp_all add: nameOK_def)
  have len: "tagLen None ?s = length n"
    using n by (simp add: tagLen_plain)
  have body: "take (tagLen None ?s) ?s = n"
    unfolding len by simp
  have rest: "drop (Suc (tagLen None ?s)) ?s = ?rest"
    unfolding len by simp
  have inraw: "tagName n \<in> set rawTags"
    using n raw by (simp add: tagName_plain)
  from name_first [OF n(1), of "CHR ''>'' # ?rest"]
  have "tokenize (CHR ''<'' # ?s) =
           StartTagToken (tagName n) (tagAttrs n)
           # textTokens (rawData (tagName n) (take (rawLen (tagName n) ?rest) ?rest))
           @ tokenize (drop (rawLen (tagName n) ?rest) ?rest)"
    by (intro tok_raw_general body rest inraw) simp_all
  moreover have "rawLen (map lower n) ?rest = length s"
    using s rawLen_found [of s n "CHR ''>'' # r"] by simp
  moreover have "tagAttrs n = []"
    using tagAttrs_tag [of n "[]"] n by (simp add: printAttrs_def)
  ultimately have "tokenize (CHR ''<'' # ?s) =
           StartTagToken (map lower n) []
           # textTokens (rawData (map lower n) s) @ tokenize (''</'' @ n @ CHR ''>'' # r)"
    using n by (simp add: tagName_plain)
  then show ?thesis
    using n tok_end [of n r] by simp
qed

lemma print_starts: "\<not> isText m \<Longrightarrow> hd (print m @ x) = CHR ''<''"
  by (cases m) simp_all

lemma tok_prints_aux:
  assumes "\<And>c r. c \<in> set cs \<Longrightarrow> isText c \<longrightarrow> r = [] \<or> hd r = CHR ''<'' \<Longrightarrow>
             tokenize (print c @ r) = mtoks c @ tokenize r"
    and "noAdjText cs"
    and "cs \<noteq> [] \<and> isText (last cs) \<longrightarrow> r = [] \<or> hd r = CHR ''<''"
  shows "tokenize (concat (map print cs) @ r) = concat (map mtoks cs) @ tokenize r"
  using assms
proof (induction cs rule: noAdjText.induct)
  case 1
  then show ?case by simp
next
  case (2 m)
  then show ?case by simp
next
  case (3 m m' ms)
  have step: "tokenize (print m @ (concat (map print (m' # ms)) @ r))
        = mtoks m @ tokenize (concat (map print (m' # ms)) @ r)"
  proof (rule "3.prems"(1))
    show "m \<in> set (m # m' # ms)" by simp
    show "isText m \<longrightarrow> concat (map print (m' # ms)) @ r = []
            \<or> hd (concat (map print (m' # ms)) @ r) = CHR ''<''"
      using "3.prems"(2) print_starts [of m' "concat (map print ms) @ r"] by auto
  qed
  have "tokenize (concat (map print (m' # ms)) @ r) = concat (map mtoks (m' # ms)) @ tokenize r"
  proof (rule "3.IH")
    show "\<And>c r. c \<in> set (m' # ms) \<Longrightarrow> isText c \<longrightarrow> r = [] \<or> hd r = CHR ''<'' \<Longrightarrow>
            tokenize (print c @ r) = mtoks c @ tokenize r"
      using "3.prems"(1) by simp
    show "noAdjText (m' # ms)" using "3.prems"(2) by simp
    show "m' # ms \<noteq> [] \<and> isText (last (m' # ms)) \<longrightarrow> r = [] \<or> hd r = CHR ''<''"
      using "3.prems"(3) by simp
  qed
  with step show ?case by simp
qed

lemma tok_print:
  "wf m \<Longrightarrow> isText m \<longrightarrow> r = [] \<or> hd r = CHR ''<'' \<Longrightarrow>
   tokenize (print m @ r) = mtoks m @ tokenize r"
proof (induction m arbitrary: r)
  case (MText s)
  then show ?case by (simp add: textOK_def tok_text)
next
  case (MElem n as cs)
  let ?close = "''</'' @ n @ CHR ''>'' # r"
  from MElem.prems have n: "nameOK n" and as: "list_all attrOK as"
    and raw: "map lower n \<notin> set rawTags" and cs: "list_all wf cs" "noAdjText cs"
    by simp_all
  have inner: "tokenize (concat (map print cs) @ ?close) = concat (map mtoks cs) @ tokenize ?close"
  proof (rule tok_prints_aux)
    show "\<And>c r. c \<in> set cs \<Longrightarrow> isText c \<longrightarrow> r = [] \<or> hd r = CHR ''<'' \<Longrightarrow>
            tokenize (print c @ r) = mtoks c @ tokenize r"
      using MElem.IH cs(1) by (simp add: list_all_iff)
    show "noAdjText cs" by (rule cs(2))
    show "cs \<noteq> [] \<and> isText (last cs) \<longrightarrow> ?close = [] \<or> hd ?close = CHR ''<''" by simp
  qed
  have "tokenize (print (MElem n as cs) @ r)
        = tokenize (CHR ''<'' # n @ printAttrs as @ CHR ''>'' # (concat (map print cs) @ ?close))"
    by simp
  also have "\<dots> = StartTagToken (map lower n) (map attrOf as) # tokenize (concat (map print cs) @ ?close)"
    using n as raw by (rule tok_start)
  also have "\<dots> = StartTagToken (map lower n) (map attrOf as) # concat (map mtoks cs) @ tokenize ?close"
    using inner by simp
  also have "tokenize ?close = EndTagToken (map lower n) # tokenize r"
    using tok_end [OF n, of r] by simp
  finally show ?case by simp
next
  case (MVoid n as)
  then have n: "nameOK n" and as: "list_all attrOK as" and v: "map lower n \<in> set voidTags"
    by simp_all
  from v have raw: "map lower n \<notin> set rawTags"
    by (auto simp: voidTags_def rawTags_def)
  show ?case using tok_start [OF n as raw, of r] by simp
next
  case (MRaw n s)
  then show ?case using tok_raw by blast
next
  case (MDoctype d)
  then show ?case using tok_doctype by simp
qed

lemma tok_prints:
  assumes "wfs ms"
  shows "tokenize (prints ms) = concat (map mtoks ms)"
proof -
  have "tokenize (concat (map print ms) @ []) = concat (map mtoks ms) @ tokenize []"
  proof (rule tok_prints_aux)
    show "\<And>c r. c \<in> set ms \<Longrightarrow> isText c \<longrightarrow> r = [] \<or> hd r = CHR ''<'' \<Longrightarrow>
            tokenize (print c @ r) = mtoks c @ tokenize r"
      using assms tok_print by (simp add: wfs_def list_all_iff)
    show "noAdjText ms" using assms by (simp add: wfs_def)
    show "ms \<noteq> [] \<and> isText (last ms) \<longrightarrow> ([]::string) = [] \<or> hd ([]::string) = CHR ''<''" by simp
  qed
  then show ?thesis by (simp add: prints_def tokenize.simps(1))
qed

subsection \<open>The tree built from the tokens of printed markup\<close>

lemma node_text: "(Type (node m) = TextNode) = isText m"
  by (cases m) simp_all

lemma build_aux:
  assumes "\<And>c t d a cs0 st ts. c \<in> set ms \<Longrightarrow>
             \<not> (cs0 \<noteq> [] \<and> Type (last cs0) = TextNode \<and> isText c) \<Longrightarrow>
             foldl step (Node t d a cs0 # st) (mtoks c @ ts)
             = foldl step (Node t d a (cs0 @ [node c]) # st) ts"
    and "noAdjText ms"
    and "\<not> (cs0 \<noteq> [] \<and> Type (last cs0) = TextNode \<and> ms \<noteq> [] \<and> isText (hd ms))"
  shows "foldl step (Node t d a cs0 # st) (concat (map mtoks ms) @ ts)
         = foldl step (Node t d a (cs0 @ map node ms) # st) ts"
  using assms
proof (induction ms arbitrary: cs0)
  case Nil
  then show ?case by simp
next
  case (Cons m ms)
  have one: "foldl step (Node t d a cs0 # st) (mtoks m @ (concat (map mtoks ms) @ ts))
        = foldl step (Node t d a (cs0 @ [node m]) # st) (concat (map mtoks ms) @ ts)"
    by (rule Cons.prems(1)) (use Cons.prems(3) in auto)
  have rest: "foldl step (Node t d a (cs0 @ [node m]) # st) (concat (map mtoks ms) @ ts)
        = foldl step (Node t d a ((cs0 @ [node m]) @ map node ms) # st) ts"
  proof (rule Cons.IH)
    show "\<And>c t d a cs0 st ts. c \<in> set ms \<Longrightarrow>
             \<not> (cs0 \<noteq> [] \<and> Type (last cs0) = TextNode \<and> isText c) \<Longrightarrow>
             foldl step (Node t d a cs0 # st) (mtoks c @ ts)
             = foldl step (Node t d a (cs0 @ [node c]) # st) ts"
      using Cons.prems(1) by simp
    show "noAdjText ms" using Cons.prems(2) by (cases ms) simp_all
    show "\<not> (cs0 @ [node m] \<noteq> [] \<and> Type (last (cs0 @ [node m])) = TextNode \<and> ms \<noteq> [] \<and> isText (hd ms))"
      using Cons.prems(2) by (cases ms) (auto simp: node_text)
  qed
  from one rest show ?case by simp
qed

lemma build_one:
  "wf m \<Longrightarrow> \<not> (cs0 \<noteq> [] \<and> Type (last cs0) = TextNode \<and> isText m) \<Longrightarrow>
   foldl step (Node t d a cs0 # st) (mtoks m @ ts)
   = foldl step (Node t d a (cs0 @ [node m]) # st) ts"
proof (induction m arbitrary: t d a cs0 st ts)
  case (MText s)
  then have "filter (\<lambda>c. c \<noteq> CHR 0x00) (textData s) = textData s" and "textData s \<noteq> []"
    by (auto simp: textOK_def filter_id_conv)
  with MText.prems(2) show ?case by (auto simp: Let_def)
next
  case (MElem n as cs)
  let ?name = "map lower n"
  let ?open = "Node ElementNode ?name (map attrOf as) []"
  let ?done = "Node ElementNode ?name (map attrOf as) (map node cs)"
  let ?below = "Node t d a cs0 # st"
  from MElem.prems have nv: "?name \<notin> set voidTags" and cs: "list_all wf cs" "noAdjText cs"
    by simp_all
  have inner: "foldl step (?open # ?below) (concat (map mtoks cs) @ (EndTagToken ?name # ts))
        = foldl step (Node ElementNode ?name (map attrOf as) ([] @ map node cs) # ?below) (EndTagToken ?name # ts)"
  proof (rule build_aux)
    show "\<And>c t d a cs0 st ts. c \<in> set cs \<Longrightarrow>
             \<not> (cs0 \<noteq> [] \<and> Type (last cs0) = TextNode \<and> isText c) \<Longrightarrow>
             foldl step (Node t d a cs0 # st) (mtoks c @ ts)
             = foldl step (Node t d a (cs0 @ [node c]) # st) ts"
      using MElem.IH cs(1) by (simp add: list_all_iff)
    show "noAdjText cs" by (rule cs(2))
    show "\<not> ([] \<noteq> [] \<and> Type (last []) = TextNode \<and> cs \<noteq> [] \<and> isText (hd cs))" by simp
  qed
  have close: "step (?done # ?below) (EndTagToken ?name) = Node t d a (cs0 @ [?done]) # st"
    by simp
  have "foldl step ?below (mtoks (MElem n as cs) @ ts)
        = foldl step (?open # ?below) (concat (map mtoks cs) @ (EndTagToken ?name # ts))"
    using nv by simp
  also have "\<dots> = foldl step (?done # ?below) (EndTagToken ?name # ts)"
    using inner by simp
  also have "\<dots> = foldl step (Node t d a (cs0 @ [?done]) # st) ts"
    using close by simp
  finally show ?case by simp
next
  case (MVoid n as)
  then show ?case by simp
next
  case (MRaw n s)
  let ?name = "map lower n"
  from MRaw.prems have raw: "?name \<in> set rawTags" and nul: "CHR 0x00 \<notin> set (rawData ?name s)"
    and ne: "s = [] \<or> rawData ?name s \<noteq> []"
    by simp_all
  from raw have nv: "?name \<notin> set voidTags" by (auto simp: voidTags_def rawTags_def)
  from nul have f: "filter (\<lambda>c. c \<noteq> CHR 0x00) (rawData ?name s) = rawData ?name s"
    by (auto simp: filter_id_conv)
  have empty: "s = [] \<Longrightarrow> rawData ?name s = []"
    by (simp add: rawData_def textData_def)
  show ?case
  proof (cases "s = []")
    case True
    with nv empty show ?thesis by (simp add: textTokens_def)
  next
    case False
    with ne have "rawData ?name s \<noteq> []" by simp
    with nv f False show ?thesis by (simp add: textTokens_def Let_def)
  qed
next
  case (MDoctype x)
  then show ?case by simp
qed

theorem parse_prints:
  assumes "wfs ms"
  shows "parseDocument (prints ms) = Node DocumentNode [] [] (map node ms)"
proof -
  have "foldl step (Node DocumentNode [] [] [] # []) (concat (map mtoks ms) @ [])
        = foldl step (Node DocumentNode [] [] ([] @ map node ms) # []) []"
  proof (rule build_aux)
    show "\<And>c t d a cs0 st ts. c \<in> set ms \<Longrightarrow>
             \<not> (cs0 \<noteq> [] \<and> Type (last cs0) = TextNode \<and> isText c) \<Longrightarrow>
             foldl step (Node t d a cs0 # st) (mtoks c @ ts)
             = foldl step (Node t d a (cs0 @ [node c]) # st) ts"
      using assms build_one by (simp add: wfs_def list_all_iff)
    show "noAdjText ms" using assms by (simp add: wfs_def)
    show "\<not> ([] \<noteq> [] \<and> Type (last []) = TextNode \<and> ms \<noteq> [] \<and> isText (hd ms))" by simp
  qed
  with assms show ?thesis by (simp add: parseDocument_def tok_prints)
qed

section \<open>The page the encoder writes, parsed\<close>

subsection \<open>The page as markup\<close>

lemma headerVal_prints: "headerVal v = concat (map print (headerMarkup v))"
  by (simp add: headerVal_def headerMarkup_def printAttrs_def)

lemma htmlEscaper_prints: "htmlEscaper v = concat (map print (footMarkup v))"
  by (simp add: footMarkup_def htmlEscaper_def)

lemma wrapCell_prints: "wrapCell v r c = concat (map print (cellMarkup v r c))"
  by (simp add: wrapCell_def cellMarkup_def printAttrs_def printAttr_def Let_def)

lemma row_prints:
  "''\<newline>    <tr>'' @
     concat (map (\<lambda>(ci, val). ''<td>'' @ wrapCell val (int ri) (int ci) @ ''</td>'') cells) @
     ''</tr>\<newline>    ''
   = ''\<newline>    '' @
     print (MElem ''tr'' [] (map (\<lambda>(ci, val). MElem ''td'' [] (cellMarkup val (int ri) (int ci))) cells))
     @ ''\<newline>    ''"
proof -
  have "concat (map (\<lambda>(ci, val). ''<td>'' @ wrapCell val (int ri) (int ci) @ ''</td>'') cells)
        = concat (map print (map (\<lambda>(ci, val). MElem ''td'' [] (cellMarkup val (int ri) (int ci))) cells))"
    by (induction cells) (auto simp: wrapCell_prints printAttrs_def)
  then show ?thesis by (simp add: printAttrs_def)
qed

lemma body_prints_aux:
  "''\<newline>    '' @
     concat (map (\<lambda>(ri, row). ''\<newline>    <tr>'' @
         concat (map (\<lambda>(ci, val). ''<td>'' @ wrapCell val (int ri) (int ci) @ ''</td>'')
                  (enumerate 0 (Col row))) @
         ''</tr>\<newline>    '') ps) @ rest
   = concat (map print (concat (map (\<lambda>p. [MText ''\<newline>    \<newline>    '', rowMarkup p]) ps)))
     @ ''\<newline>    '' @ rest"
proof (induction ps)
  case Nil
  show ?case by simp
next
  case (Cons p ps)
  obtain ri row where p: "p = (ri, row)" by (cases p)
  have "''\<newline>    '' @ concat (map (\<lambda>(ri, row). ''\<newline>    <tr>'' @
         concat (map (\<lambda>(ci, val). ''<td>'' @ wrapCell val (int ri) (int ci) @ ''</td>'')
                  (enumerate 0 (Col row))) @
         ''</tr>\<newline>    '') (p # ps)) @ rest
     = ''\<newline>    '' @ (''\<newline>    '' @ print (rowMarkup p)) @
       (''\<newline>    '' @ concat (map (\<lambda>(ri, row). ''\<newline>    <tr>'' @
         concat (map (\<lambda>(ci, val). ''<td>'' @ wrapCell val (int ri) (int ci) @ ''</td>'')
                  (enumerate 0 (Col row))) @
         ''</tr>\<newline>    '') ps) @ rest)"
    using row_prints [of ri "enumerate 0 (Col row)"]
    by (simp add: p rowMarkup_def del: print.simps)
  also note Cons.IH
  finally show ?case by simp
qed

lemma body_prints:
  "CHR 0x0A # CHR '' '' # CHR '' '' # CHR '' '' # CHR '' '' #
     concat (map (\<lambda>(ri, row). ''\<newline>    <tr>'' @
         concat (map (\<lambda>(ci, val). ''<td>'' @ wrapCell val (int ri) (int ci) @ ''</td>'')
                  (enumerate 0 (Col row))) @
         ''</tr>\<newline>    '') ps) @ rest
   = concat (map print (concat (map (\<lambda>p. [MText ''\<newline>    \<newline>    '', rowMarkup p]) ps)))
     @ ''\<newline>    '' @ rest"
  using body_prints_aux [of ps rest] by simp

lemma map_weak_cong: "xs = ys \<Longrightarrow> map f xs = map f ys"
  by simp

lemma pageTmpl_prints: "pageTmpl Header Rows Footer = prints (pageMarkup Header Rows Footer)"
  unfolding pageTmpl_def pageMarkup_def prints_def bodyMarkup_def
  by (simp add: headerVal_prints htmlEscaper_prints body_prints printAttrs_def printAttr_def
      cong: map_weak_cong)

subsection \<open>Escaping and unescaping\<close>

lemma char_codes:
  "char_of (39::nat) = CHR 0x27" "char_of (34::nat) = CHR 0x22" "char_of (43::nat) = CHR ''+''"
  by code_simp+

lemma digit_facts:
  "isDigit (CHR ''3'')" "isDigit (CHR ''4'')" "isDigit (CHR ''9'')" "\<not> isDigit (CHR '';'')"
  by code_simp+

lemma of_char_digits:
  "(of_char (CHR ''3'') :: nat) = 51" "(of_char (CHR ''4'') :: nat) = 52" "(of_char (CHR ''9'') :: nat) = 57"
  by code_simp+

lemma entity_39: "entity (''#39;'' @ r) = Some ([CHR 0x27], 4)"
  by (simp add: entity_def digit_facts of_char_digits char_codes)

lemma entity_34: "entity (''#34;'' @ r) = Some ([CHR 0x22], 4)"
  by (simp add: entity_def digit_facts of_char_digits char_codes)

lemma entity_43: "entity (''#43;'' @ r) = Some (''+'', 4)"
  by (simp add: entity_def digit_facts of_char_digits char_codes)

lemma unescape_escapeByte: "unescape (escapeByte c @ r) = c # unescape r"
  using entity_39 [of r] entity_34 [of r]
  by (simp add: escapeByte_def entity_def)

lemma unescape_EscapeString: "unescape (EscapeString v @ r) = v @ unescape r"
  by (induction v) (simp_all add: EscapeString_def unescape_escapeByte)

lemma unescape_htmlEscapeByte: "c \<noteq> CHR 0x00 \<Longrightarrow> unescape (htmlEscapeByte c @ r) = c # unescape r"
  using entity_39 [of r] entity_34 [of r] entity_43 [of r]
  by (simp add: htmlEscapeByte_def entity_def)

lemma unescape_htmlEscaper: "CHR 0x00 \<notin> set v \<Longrightarrow> unescape (htmlEscaper v @ r) = v @ unescape r"
  by (induction v) (auto simp add: htmlEscaper_def unescape_htmlEscapeByte)

lemma convertNewlines_id: "CHR 0x0D \<notin> set s \<Longrightarrow> convertNewlines s = s"
  by (induction s rule: convertNewlines.induct) auto

lemma escapeByte_chars:
  "CHR ''<'' \<notin> set (escapeByte c)" "c \<noteq> CHR 0x0D \<Longrightarrow> CHR 0x0D \<notin> set (escapeByte c)"
  "escapeByte c \<noteq> []"
  by (auto simp: escapeByte_def)

lemma htmlEscapeByte_chars:
  "CHR ''<'' \<notin> set (htmlEscapeByte c)" "c \<noteq> CHR 0x0D \<Longrightarrow> CHR 0x0D \<notin> set (htmlEscapeByte c)"
  "htmlEscapeByte c \<noteq> []"
  by (auto simp: htmlEscapeByte_def)

lemma EscapeString_chars:
  "CHR ''<'' \<notin> set (EscapeString v)"
  "CHR 0x0D \<notin> set v \<Longrightarrow> CHR 0x0D \<notin> set (EscapeString v)"
  "v \<noteq> [] \<Longrightarrow> EscapeString v \<noteq> []"
  using escapeByte_chars by (induction v) (auto simp: EscapeString_def)

lemma htmlEscaper_chars:
  "CHR ''<'' \<notin> set (htmlEscaper v)"
  "CHR 0x0D \<notin> set v \<Longrightarrow> CHR 0x0D \<notin> set (htmlEscaper v)"
  "v \<noteq> [] \<Longrightarrow> htmlEscaper v \<noteq> []"
  using htmlEscapeByte_chars by (induction v) (auto simp: htmlEscaper_def)

lemma textData_EscapeString: "clean v \<Longrightarrow> textData (EscapeString v) = v"
  using unescape_EscapeString [of v "[]"]
  by (simp add: textData_def clean_def convertNewlines_id EscapeString_chars)

lemma textData_htmlEscaper: "clean v \<Longrightarrow> textData (htmlEscaper v) = v"
  using unescape_htmlEscaper [of v "[]"]
  by (simp add: textData_def clean_def convertNewlines_id htmlEscaper_chars)

lemma textOK_EscapeString: "clean v \<Longrightarrow> v \<noteq> [] \<Longrightarrow> textOK (EscapeString v)"
  by (simp add: textOK_def textData_EscapeString EscapeString_chars) (simp add: clean_def)

lemma textOK_htmlEscaper: "clean v \<Longrightarrow> v \<noteq> [] \<Longrightarrow> textOK (htmlEscaper v)"
  by (simp add: textOK_def textData_htmlEscaper htmlEscaper_chars) (simp add: clean_def)

subsection \<open>The page markup is well formed\<close>

lemma lower_chars:
  "lower (CHR ''a'') = CHR ''a''" "lower (CHR ''b'') = CHR ''b''" "lower (CHR ''c'') = CHR ''c''"
  "lower (CHR ''d'') = CHR ''d''" "lower (CHR ''e'') = CHR ''e''" "lower (CHR ''f'') = CHR ''f''"
  "lower (CHR ''g'') = CHR ''g''" "lower (CHR ''h'') = CHR ''h''" "lower (CHR ''i'') = CHR ''i''"
  "lower (CHR ''j'') = CHR ''j''" "lower (CHR ''k'') = CHR ''k''" "lower (CHR ''l'') = CHR ''l''"
  "lower (CHR ''m'') = CHR ''m''" "lower (CHR ''n'') = CHR ''n''" "lower (CHR ''o'') = CHR ''o''"
  "lower (CHR ''p'') = CHR ''p''" "lower (CHR ''q'') = CHR ''q''" "lower (CHR ''r'') = CHR ''r''"
  "lower (CHR ''s'') = CHR ''s''" "lower (CHR ''t'') = CHR ''t''" "lower (CHR ''u'') = CHR ''u''"
  "lower (CHR ''v'') = CHR ''v''" "lower (CHR ''w'') = CHR ''w''" "lower (CHR ''x'') = CHR ''x''"
  "lower (CHR ''y'') = CHR ''y''" "lower (CHR ''z'') = CHR ''z''" "lower (CHR ''P'') = CHR ''p''"
  "lower (CHR ''R'') = CHR ''r''" "lower (CHR ''M'') = CHR ''m''"
  by code_simp+

lemma digits_no_quote: "CHR 0x22 \<notin> set (digits n)"
  using digits_isDigit [of n] by (auto simp: isDigit_def)

lemma itoa_no_quote: "CHR 0x22 \<notin> set (itoa i)"
  by (simp add: itoa_def digits_no_quote)

lemma wf_headerMarkup:
  "clean v \<Longrightarrow> list_all wf (headerMarkup v) \<and> noAdjText (MText l # headerMarkup v)"
  by (simp add: headerMarkup_def textOK_EscapeString nameOK_def isNameChar_def lower_chars voidTags_def)

lemma wf_footMarkup:
  "clean v \<Longrightarrow> list_all wf (footMarkup v) \<and> noAdjText (footMarkup v)"
  by (simp add: footMarkup_def textOK_htmlEscaper)

lemma wf_cellMarkup:
  "clean v \<Longrightarrow> list_all wf (cellMarkup v r c) \<and> noAdjText (cellMarkup v r c)"
  by (simp add: cellMarkup_def textOK_EscapeString nameOK_def isNameChar_def attrOK_def
      lower_chars voidTags_def rawTags_def itoa_no_quote)

lemma noAdjText_elems: "list_all (\<lambda>m. \<not> isText m) ms \<Longrightarrow> noAdjText ms"
  by (induction ms rule: noAdjText.induct) simp_all

lemma wf_rowMarkup:
  assumes "list_all clean (Col (snd p))"
  shows "wf (rowMarkup p)"
proof -
  have "list_all wf (map (\<lambda>(ci, val). MElem ''td'' [] (cellMarkup val (int (fst p)) (int ci))) cells)
        \<and> list_all (\<lambda>m. \<not> isText m) (map (\<lambda>(ci, val). MElem ''td'' [] (cellMarkup val (int (fst p)) (int ci))) cells)"
    if "list_all clean (map snd cells)" for cells :: "(nat \<times> string) list"
    using that
    by (induction cells)
       (auto simp: wf_cellMarkup nameOK_def isNameChar_def lower_chars voidTags_def rawTags_def)
  from this [of "enumerate 0 (Col (snd p))"] assms show ?thesis
    by (simp add: rowMarkup_def nameOK_def isNameChar_def lower_chars voidTags_def rawTags_def
        noAdjText_elems)
qed

lemma textOK_ws:
  "textOK ''\<newline>    \<newline>    ''" "textOK ''\<newline>    \<newline>  ''"
  by (simp_all add: textOK_def textData_def entity_def)

lemma not_isText_rowMarkup: "\<not> isText (rowMarkup p)"
  by (simp add: rowMarkup_def)

lemma wf_bodyMarkup_aux:
  "list_all (\<lambda>p. list_all clean (Col (snd p))) ps \<Longrightarrow>
   list_all wf (concat (map (\<lambda>p. [MText ''\<newline>    \<newline>    '', rowMarkup p]) ps) @ [MText t])
     = textOK t
   \<and> noAdjText (concat (map (\<lambda>p. [MText ''\<newline>    \<newline>    '', rowMarkup p]) ps) @ [MText t])"
proof (induction ps)
  case Nil
  then show ?case by simp
next
  case (Cons p ps)
  then have IH: "list_all wf (concat (map (\<lambda>p. [MText ''\<newline>    \<newline>    '', rowMarkup p]) ps) @ [MText t]) = textOK t"
    "noAdjText (concat (map (\<lambda>p. [MText ''\<newline>    \<newline>    '', rowMarkup p]) ps) @ [MText t])"
    and p: "list_all clean (Col (snd p))"
    by simp_all
  have adj: "noAdjText (rowMarkup p # xs) = noAdjText xs" for xs
    using not_isText_rowMarkup [of p] by (cases xs) simp_all
  from IH p show ?case
    using not_isText_rowMarkup [of p] by (simp add: wf_rowMarkup textOK_ws adj)
qed

lemma wf_bodyMarkup:
  "list_all (\<lambda>r. list_all clean (Col r)) Rows \<Longrightarrow>
   list_all wf (bodyMarkup Rows) \<and> noAdjText (bodyMarkup Rows)"
proof -
  assume "list_all (\<lambda>r. list_all clean (Col r)) Rows"
  then have "list_all (\<lambda>p. list_all clean (Col (snd p))) (enumerate 0 Rows)"
    by (auto simp: list_all_iff in_set_enumerate_eq)
  from wf_bodyMarkup_aux [OF this, of "''\<newline>    \<newline>  ''"] show ?thesis
    by (simp add: bodyMarkup_def textOK_ws)
qed

lemma clean_nth: "list_all clean xs \<Longrightarrow> i < length xs \<Longrightarrow> clean (xs ! i)"
  by (simp add: list_all_length)

lemma wfs_pageMarkup:
  assumes "cleanPage Header Rows Footer"
  shows "wfs (pageMarkup Header Rows Footer)"
proof -
  from assms have h: "clean (Header ! 0)" "clean (Header ! 1)" "clean (Header ! 2)"
    "clean (Header ! 3)" "clean (Header ! 4)" "clean (Header ! 5)" "clean (Header ! 6)"
    by (simp_all add: cleanPage_def HeadCount_def clean_nth)
  from assms have f: "clean (Footer ! 0)" "clean (Footer ! 1)" "clean (Footer ! 2)" "clean (Footer ! 3)"
    by (simp_all add: cleanPage_def FootCount_def clean_nth)
  from assms have "list_all (\<lambda>r. list_all clean (Col r)) Rows"
    by (simp add: cleanPage_def list_all_iff)
  then have b: "list_all wf (bodyMarkup Rows)" "noAdjText (bodyMarkup Rows)"
    using wf_bodyMarkup by blast+
  show ?thesis
    unfolding wfs_def pageMarkup_def
    using h f b
    by (simp add: wf_headerMarkup wf_footMarkup textOK_def textData_def entity_def nameOK_def
        isNameChar_def attrOK_def lower_chars voidTags_def rawTags_def rawData_def isWS_def)
qed

section \<open>The claims\<close>

subsection \<open>C5: header line-break gating\<close>


subsection \<open>C3: decode error handling\<close>



subsection \<open>C10: decoded fields are trimmed\<close>

text \<open>
  C10. Every header, body and footer field that a decode returns has no leading or
  trailing white space: it equals itself after \<open>strings.TrimSpace\<close>. Consequently a
  value with leading or trailing white space is never among the fields a decode
  returns. (On the two error paths the fields are the empty strings of the zero
  values, which are trimmed too.)
\<close>

theorem decoded_fields_trimmed:
  assumes "ParseHTML w path = (head, rows, foot, err)"
  shows "(\<forall>h\<in>set head. TrimSpace h = h)
       \<and> (\<forall>r\<in>set rows. \<forall>c\<in>set (Col r). TrimSpace c = c)
       \<and> (\<forall>f\<in>set foot. TrimSpace f = f)
       \<and> (\<forall>v. TrimSpace v \<noteq> v \<longrightarrow>
              v \<notin> set head \<and> (\<forall>r\<in>set rows. v \<notin> set (Col r)) \<and> v \<notin> set foot)"
proof -
  have main: "(\<forall>h\<in>set head. TrimSpace h = h)
       \<and> (\<forall>r\<in>set rows. \<forall>c\<in>set (Col r). TrimSpace c = c)
       \<and> (\<forall>f\<in>set foot. TrimSpace f = f)"
  proof (cases "files w (filepath_Clean path)")
    case None
    with assms zero_trimmed show ?thesis by (simp add: ParseHTML_cases)
  next
    case (Some f)
    show ?thesis
    proof (cases f)
      case (Regular s)
      with Some assms have "head = headerSlots (parseDocument s)"
        "rows = rowSlots (parseDocument s)" "foot = footerSlots (parseDocument s)"
        by (simp_all add: ParseHTML_cases)
      then show ?thesis
        using headerSlots_trimmed rowSlots_trimmed footerSlots_trimmed by simp
    next
      case Directory
      with Some assms zero_trimmed show ?thesis by (simp add: ParseHTML_cases)
    qed
  qed
  then show ?thesis by blast
qed

theorem decoded_fields_trimmed_witness:
  "ParseHTML sampleWorld ''page.html'' =
    ([''Ham'', [], [], [], [], [], []],
     \<lparr>Col = [''a'', ''b & c'', [], [], [], [], [], [], [], [], [], []]\<rparr>
       # replicate 24 \<lparr>Col = replicate 12 []\<rparr>,
     [''7'', [], [], []], None)
   \<and> TrimSpace ''Ham'' = ''Ham'' \<and> TrimSpace ''b & c'' = ''b & c'' \<and> TrimSpace ''7'' = ''7''
   \<and> TrimSpace '' Ham '' \<noteq> '' Ham ''
   \<and> '' Ham '' \<notin> set [''Ham'', [], [], [], [], [], []]"
proof -
  note d = sample_decode
  from decoded_fields_trimmed [OF d] have
    "\<forall>h\<in>set [''Ham'', [], [], [], [], [], []]. TrimSpace h = h"
    "\<forall>r\<in>set (\<lparr>Col = [''a'', ''b & c'', [], [], [], [], [], [], [], [], [], []]\<rparr>
       # replicate 24 \<lparr>Col = replicate 12 []\<rparr>). \<forall>c\<in>set (Col r). TrimSpace c = c"
    "\<forall>f\<in>set [''7'', [], [], []]. TrimSpace f = f"
    by blast+
  then have "TrimSpace ''Ham'' = ''Ham''" "TrimSpace ''b & c'' = ''b & c''" "TrimSpace ''7'' = ''7''"
    by simp_all
  moreover have "TrimSpace '' Ham '' \<noteq> '' Ham ''" by code_simp
  ultimately show ?thesis using d by simp
qed

subsection \<open>C6: footer colspan exclusion\<close>

text \<open>
  C6 as worded: the footer slots receive, in document order, the text of the first 4
  \<open>td\<close> cells under a \<open>tfoot\<close> that lack a \<open>colspan\<close> attribute. This fails where a
  label cell (a \<open>td\<close> with \<open>colspan\<close>) holds a nested table: the walk returns at the
  label cell and never visits the cells inside it. In \<open>nestedLabelDoc\<close> the inner cell
  \<open>x\<close> lies under the \<open>tfoot\<close> and has no \<open>colspan\<close>, yet every footer slot stays empty.
\<close>

theorem footer_colspan_counterexample:
  "extractFoot (parseDocument nestedLabelDoc) = [[], [], [], []]
   \<and> footerAsWorded (parseDocument nestedLabelDoc) = [''x'', [], [], []]
   \<and> extractFoot (parseDocument nestedLabelDoc) \<noteq> footerAsWorded (parseDocument nestedLabelDoc)"
  by code_simp

text \<open>
  C6 as amended: a \<open>td\<close> under a \<open>tfoot\<close> that carries \<open>colspan\<close> is never assigned to a
  footer slot, even when it is the first such cell; the footer slots receive, in
  document order, the text of the first 4 \<open>td\<close> cells under a \<open>tfoot\<close> that lack
  \<open>colspan\<close> and do not lie inside a \<open>td\<close> under a \<open>tfoot\<close> that carries \<open>colspan\<close>;
  slots without a cell are empty.
\<close>

theorem footer_colspan_exclusion:
  "extractFoot doc = pad FootCount (map (\<lambda>td. textOf (Some td)) (valueCells doc))
   \<and> filter hasColspan (valueCells doc) = []
   \<and> valueCells doc =
       map fst (filter (\<lambda>(n, anc). \<not> hasColspan n \<and> \<not> inLabelCell anc) (tfootTds [] doc))
   \<and> fst (snd (snd (ParseHTML \<lparr>files = fs(filepath_Clean path \<mapsto> Regular s)\<rparr> path)))
       = footerSlots (parseDocument s)"
  by (simp add: extractFoot_spec footerSlots_def valueCells_no_colspan ParseHTML_cases
      del: textOf.simps) (simp add: valueCells_def)

subsection \<open>C7: truncation policy\<close>





subsection \<open>C2: column markup selection\<close>

text \<open>
  C2. For every row index \<open>r\<close> in 0..24, column index \<open>c\<close> in 0..11 and non-empty cell
  value \<open>v\<close>, the encoder wraps the escaped value at column 4 in a \<open>PersonRef\<close> element
  with the attribute \<open>detlnk="dpR{r+1}C5"\<close>, at columns 1 and 10 in a \<open>PlaceRef\<close>
  element with \<open>detlnk="dwR{r+1}C{c+1}"\<close>, and at every other column in a \<open>Mark\<close>
  element with \<open>ref="R{r+1}C{c+1}"\<close>. The indices in the attribute values are 1-based
  decimal numerals (reading them back gives \<open>r + 1\<close> and \<open>c + 1\<close>), and an empty value
  gives no markup at all, so the cell is an empty \<open>td\<close>. Both copies of \<open>wrapCell\<close>
  agree.
\<close>

theorem column_markup_selection:
  assumes "0 \<le> r" and "r \<le> 24" and "0 \<le> c" and "c \<le> 11" and "v \<noteq> []"
  shows \<open>wrapCell v r c =
     (if c = 4 then
        ''<PersonRef detlnk="dpR'' @ itoa (r + 1) @ ''C5">'' @ EscapeString v @ ''</PersonRef>''
      else if c = 1 \<or> c = 10 then
        ''<PlaceRef detlnk="dwR'' @ itoa (r + 1) @ ''C'' @ itoa (c + 1) @ ''">'' @ EscapeString v @ ''</PlaceRef>''
      else
        ''<Mark ref="R'' @ itoa (r + 1) @ ''C'' @ itoa (c + 1) @ ''">'' @ EscapeString v @ ''</Mark>'')
    \<and> wrapCell_main v r c = wrapCell v r c
    \<and> decimal 0 (itoa (r + 1)) = nat r + 1 \<and> decimal 0 (itoa (c + 1)) = nat c + 1
    \<and> wrapCell [] r c = [] \<and> wrapCell_main [] r c = []\<close>
  using assms
  by (simp add: wrapCell_def wrapCell_main_def Let_def digits_5 itoa_def decimal_digits nat_add_distrib)

theorem column_markup_selection_witness:
  \<open>wrapCell ''a<b'' 24 4 = ''<PersonRef detlnk="dpR25C5">a&lt;b</PersonRef>''
   \<and> wrapCell ''x'' 0 1 = ''<PlaceRef detlnk="dwR1C2">x</PlaceRef>''
   \<and> wrapCell ''x'' 24 10 = ''<PlaceRef detlnk="dwR25C11">x</PlaceRef>''
   \<and> wrapCell ''x'' 0 0 = ''<Mark ref="R1C1">x</Mark>''
   \<and> wrapCell ''x'' 24 11 = ''<Mark ref="R25C12">x</Mark>''\<close>
proof -
  have \<open>wrapCell ''a<b'' 24 4 = ''<PersonRef detlnk="dpR25C5">a&lt;b</PersonRef>''\<close>
    using column_markup_selection [of 24 4 "''a<b''"]
    by (simp add: itoa_small EscapeString_def escapeByte_def)
  moreover have \<open>wrapCell ''x'' 0 1 = ''<PlaceRef detlnk="dwR1C2">x</PlaceRef>''\<close>
    using column_markup_selection [of 0 1 "''x''"]
    by (simp add: itoa_small EscapeString_def escapeByte_def)
  moreover have \<open>wrapCell ''x'' 24 10 = ''<PlaceRef detlnk="dwR25C11">x</PlaceRef>''\<close>
    using column_markup_selection [of 24 10 "''x''"]
    by (simp add: itoa_small EscapeString_def escapeByte_def)
  moreover have \<open>wrapCell ''x'' 0 0 = ''<Mark ref="R1C1">x</Mark>''\<close>
    using column_markup_selection [of 0 0 "''x''"]
    by (simp add: itoa_small EscapeString_def escapeByte_def)
  moreover have \<open>wrapCell ''x'' 24 11 = ''<Mark ref="R25C12">x</Mark>''\<close>
    using column_markup_selection [of 24 11 "''x''"]
    by (simp add: itoa_small EscapeString_def escapeByte_def)
  ultimately show ?thesis by simp
qed

subsection \<open>C9: the two copies of the codec\<close>

text \<open>
  C9 as worded: the two copies of the codec are behaviourally identical, the two
  encoders writing byte-identical documents for every input. They do not: already for
  the blank page the file written by \<open>WriteHTML\<close> (package \<open>template\<close>) differs from
  the one written by \<open>writeHTML\<close> (package \<open>main\<close>), whose template has other labels
  and a header table of its own.
\<close>

theorem duplicated_core_counterexample:
  "pageTmpl blankHeader blankRows blankFooter \<noteq> pageTmpl_main blankHeader blankRows blankFooter
   \<and> files (snd (WriteHTML emptyWorld blankHeader blankRows blankFooter ''census.html'')) ''census.html''
     \<noteq> files (snd (writeHTML_main emptyWorld blankHeader blankRows blankFooter ''census.html'')) ''census.html''"
  using templates_differ [of blankHeader blankRows blankFooter]
  by (simp add: WriteHTML_def writeHTML_main_def os_WriteFile_def emptyWorld_def)

text \<open>
  C9 as amended: the two copies of the decoder are behaviourally identical, returning
  equal results for every world and path, and so are the two copies of \<open>wrapCell\<close> and
  \<open>headerVal\<close>; the two page templates differ, and for no input do the two encoders
  produce the same document.
\<close>

theorem duplicated_core_equivalence:
  "parseHTML_main w path = ParseHTML w path
   \<and> wrapCell_main v r c = wrapCell v r c
   \<and> headerVal_main v = headerVal v
   \<and> pageTmpl header rows footer \<noteq> pageTmpl_main header rows footer"
  by (simp add: parseHTML_main_eq wrapCell_main_eq headerVal_main_eq templates_differ)

end
